theory Spec2Isabelle
  imports Complex_Main "HOL-Library.AList"
begin

section \<open>Strings and values of the host language\<close>

text \<open>
  A string is the list of its UTF-16 code units, each a natural number, so that
  \<open>length\<close> is the \<^verbatim>\<open>.length\<close> of the source. The development covers strings
  of the Basic Multilingual Plane, where a code unit is a code point.
  \<open>u\<close> turns a literal of Latin-1 characters into such a string.
\<close>

type_synonym ustring = "nat list"

definition u :: "string \<Rightarrow> ustring" where
  "u s = map of_char s"


text \<open>
  A number of the source is a double; the model takes the exact rational value, and
  \<open>NaN\<close> apart. Both versions of \<^verbatim>\<open>parseFileSize\<close> perform the same arithmetic up to
  the final rounding, so the idealisation affects both in the same way.
\<close>

datatype number = NaN | Num rat

section \<open>The data model (lib/types.ts)\<close>

text \<open>
  A download record and a catalog. The optional fields of \<^verbatim>\<open>DownloadType\<close> are
  options; \<open>ingestionSource\<close> is the field \<^verbatim>\<open>__ingestionSource\<close> that the data store
  adds; \<open>source\<close> is absent (\<open>None\<close>) in a catalog file and set while
  processing. \<open>oid\<close> is the identity of the object, which the source uses as the key of
  a \<^verbatim>\<open>WeakMap\<close>; it is not a property of the record.
\<close>

record DownloadType =
  oid :: nat
  title :: ustring
  fileSize :: ustring
  uploadDate :: ustring
  uris :: "ustring list"
  source :: "ustring option"
  titleNormalized :: "ustring option"
  sourceNormalized :: "ustring option"
  urisNormalized :: "ustring option"
  fileSizeBytes :: "number option"
  ingestionSource :: "ustring option"

record GogData =
  name :: ustring
  downloads :: "DownloadType list"

text \<open>A record as it comes from a catalog file, with no computed field.\<close>

definition raw_download :: "nat \<Rightarrow> ustring \<Rightarrow> ustring \<Rightarrow> ustring \<Rightarrow> DownloadType" where
  "raw_download i t sz d =
     \<lparr>oid = i, title = t, fileSize = sz, uploadDate = d, uris = [], source = None,
      titleNormalized = None, sourceNormalized = None, urisNormalized = None,
      fileSizeBytes = None, ingestionSource = None\<rparr>"

section \<open>The bounded LRU cache (lib/lru-cache.ts)\<close>















section \<open>The host platform\<close>

text \<open>
  The program relies on tables and services of its JavaScript host that are not part of
  the repository: the Unicode case mapping (\<^verbatim>\<open>toLowerCase\<close>), canonical decomposition
  (\<^verbatim>\<open>normalize("NFD")\<close>), the general categories behind \<^verbatim>\<open>\p{L}\<close> and \<^verbatim>\<open>\p{N}\<close>,
  the case folding of a regular expression with the \<^verbatim>\<open>i\<close> flag, the locale-aware
  string comparison, and the parsing of date strings (\<open>None\<close> stands for an invalid
  date, whose time value is \<^verbatim>\<open>NaN\<close>). They are parameters of the model.
\<close>

record host =
  toLowerCase :: "ustring \<Rightarrow> ustring"
  nfd :: "ustring \<Rightarrow> ustring"
  isLetter :: "nat \<Rightarrow> bool"
  isNumber :: "nat \<Rightarrow> bool"
  canonicalize :: "nat \<Rightarrow> nat"
  localeCompare :: "ustring \<Rightarrow> ustring \<Rightarrow> int"
  parseDate :: "ustring \<Rightarrow> int option"

text \<open>
  The classes that ECMAScript fixes itself: \<^verbatim>\<open>\s\<close> (white space and line terminators,
  also what \<^verbatim>\<open>trim\<close> removes), \<^verbatim>\<open>\w\<close> and \<^verbatim>\<open>\d\<close>.
\<close>

definition js_space :: "nat \<Rightarrow> bool" where
  "js_space c \<longleftrightarrow>
     (9 \<le> c \<and> c \<le> 13) \<or> c = 32 \<or> c = 160 \<or> c = 5760 \<or> (8192 \<le> c \<and> c \<le> 8202)
     \<or> c = 8232 \<or> c = 8233 \<or> c = 8239 \<or> c = 8287 \<or> c = 12288 \<or> c = 65279"

definition js_digit :: "nat \<Rightarrow> bool" where
  "js_digit c \<longleftrightarrow> 48 \<le> c \<and> c \<le> 57"

definition js_word :: "nat \<Rightarrow> bool" where
  "js_word c \<longleftrightarrow> (97 \<le> c \<and> c \<le> 122) \<or> (65 \<le> c \<and> c \<le> 90) \<or> js_digit c \<or> c = 95"

text \<open>
  \<^verbatim>\<open>s.replace(/[class]+/g, r)\<close>: every maximal run of characters of the class is
  replaced by \<open>r\<close>.
\<close>

function replace_runs :: "(nat \<Rightarrow> bool) \<Rightarrow> ustring \<Rightarrow> ustring \<Rightarrow> ustring" where
  "replace_runs P r [] = []"
| "replace_runs P r (c # cs) =
     (if P c then r @ replace_runs P r (dropWhile P cs) else c # replace_runs P r cs)"
  by pat_completeness auto
termination
  by (relation "measure (\<lambda>(P, r, s). length s)") (auto simp: length_dropWhile_le less_Suc_eq_le)

text \<open>\<^verbatim>\<open>String.prototype.trim\<close>.\<close>

definition trim :: "ustring \<Rightarrow> ustring" where
  "trim s = rev (dropWhile js_space (rev (dropWhile js_space s)))"

text \<open>
  Splitting at the characters of a class, with the empty pieces removed, as the source
  always does after \<^verbatim>\<open>split\<close>: \<^verbatim>\<open>s.split(/\s+/)\<close> is \<open>split_ws\<close>.
\<close>

function split_by :: "(nat \<Rightarrow> bool) \<Rightarrow> ustring \<Rightarrow> ustring list" where
  "split_by P [] = []"
| "split_by P (c # cs) =
     (if P c then split_by P (dropWhile P cs)
      else takeWhile (\<lambda>x. \<not> P x) (c # cs) # split_by P (dropWhile (\<lambda>x. \<not> P x) cs))"
  by pat_completeness auto
termination
  by (relation "measure (\<lambda>(P, s). length s)") (auto simp: length_dropWhile_le less_Suc_eq_le)

definition split_ws :: "ustring \<Rightarrow> ustring list" where
  "split_ws s = split_by js_space s"

text \<open>\<^verbatim>\<open>String.prototype.includes\<close> and \<^verbatim>\<open>startsWith\<close>.\<close>

fun startsWith :: "ustring \<Rightarrow> ustring \<Rightarrow> bool" where
  "startsWith s [] = True"
| "startsWith [] (p # ps) = False"
| "startsWith (c # cs) (p # ps) = (c = p \<and> startsWith cs ps)"

fun includes_str :: "ustring \<Rightarrow> ustring \<Rightarrow> bool" where
  "includes_str [] t = (t = [])"
| "includes_str (c # cs) t = (startsWith (c # cs) t \<or> includes_str cs t)"

text \<open>
  A host restricted to ASCII, used to evaluate the model on concrete inputs: letters are
  \<^verbatim>\<open>A-Z\<close> and \<^verbatim>\<open>a-z\<close>, numbers are the decimal digits, nothing decomposes, strings
  compare by their code units, and one date string is known.
\<close>

fun compare_units :: "ustring \<Rightarrow> ustring \<Rightarrow> int" where
  "compare_units [] [] = 0"
| "compare_units [] (b # bs) = -1"
| "compare_units (a # as) [] = 1"
| "compare_units (a # as) (b # bs) =
     (if a < b then -1 else if b < a then 1 else compare_units as bs)"

definition ascii_lower :: "nat \<Rightarrow> nat" where
  "ascii_lower c = (if 65 \<le> c \<and> c \<le> 90 then c + 32 else c)"

definition ascii_upper :: "nat \<Rightarrow> nat" where
  "ascii_upper c = (if 97 \<le> c \<and> c \<le> 122 then c - 32 else c)"

definition ascii_host :: host where
  "ascii_host =
     \<lparr>toLowerCase = map ascii_lower,
      nfd = (\<lambda>s. s),
      isLetter = (\<lambda>c. (97 \<le> c \<and> c \<le> 122) \<or> (65 \<le> c \<and> c \<le> 90)),
      isNumber = js_digit,
      canonicalize = ascii_upper,
      localeCompare = compare_units,
      parseDate = (\<lambda>s. if s = u ''2020-01-01'' then Some 1577836800000 else None)\<rparr>"

section \<open>Text normalisation (lib/utils.ts)\<close>

text \<open>
  \<^verbatim>\<open>normalizeText(text?)\<close>: an absent or empty argument gives the empty string; otherwise
  the seven steps of the source are applied in order. \<open>None\<close> is \<^verbatim>\<open>undefined\<close>.
\<close>

definition isCombining :: "nat \<Rightarrow> bool" where
  "isCombining c \<longleftrightarrow> 768 \<le> c \<and> c \<le> 879"

definition isSeparator :: "nat \<Rightarrow> bool" where
  "isSeparator c \<longleftrightarrow> c = 95 \<or> c = 45"

definition normalizeText :: "host \<Rightarrow> ustring option \<Rightarrow> ustring" where
  "normalizeText H text =
     (case text of
        None \<Rightarrow> []
      | Some t \<Rightarrow>
          if t = [] then []
          else
            (let s1 = toLowerCase H t;
                 s2 = nfd H s1;
                 s3 = filter (\<lambda>c. \<not> isCombining c) s2;
                 s4 = replace_runs isSeparator [32] s3;
                 s5 = filter (\<lambda>c. isLetter H c \<or> isNumber H c \<or> js_space c) s4;
                 s6 = replace_runs js_space [32] s5
             in trim s6))"

text \<open>
  What the idempotence of \<open>normalizeText\<close> needs from the host's Unicode tables: a
  string made of blanks and of letters and numbers that occur in some lower-cased,
  decomposed text is itself unchanged by lower-casing and by decomposition.
\<close>

definition unicode_stable :: "host \<Rightarrow> bool" where
  "unicode_stable H \<longleftrightarrow>
     (\<forall>s w. (\<forall>c \<in> set w. c = 32 \<or> ((isLetter H c \<or> isNumber H c) \<and> c \<in> set (nfd H (toLowerCase H s))))
        \<longrightarrow> toLowerCase H w = w \<and> nfd H w = w)"

text \<open>
  The shape of a string whose white space has been collapsed: every white-space character
  is a blank, and no blank is followed by white space.
\<close>

fun single_spaced :: "ustring \<Rightarrow> bool" where
  "single_spaced [] = True"
| "single_spaced [c] = (js_space c \<longrightarrow> c = 32)"
| "single_spaced (c # d # cs) = ((js_space c \<longrightarrow> c = 32 \<and> \<not> js_space d) \<and> single_spaced (d # cs))"

section \<open>File sizes (lib/search.ts and hooks/use-data-state.ts)\<close>

definition num_times :: "number \<Rightarrow> rat \<Rightarrow> number" where
  "num_times x k = (case x of NaN \<Rightarrow> NaN | Num q \<Rightarrow> Num (q * k))"

text \<open>\<^verbatim>\<open>Math.round\<close>: the nearest integer, a tie going up.\<close>

definition Math_round :: "number \<Rightarrow> number" where
  "Math_round x = (case x of NaN \<Rightarrow> NaN | Num q \<Rightarrow> Num (of_int \<lfloor>q + 1 / 2\<rfloor>))"

text \<open>\<^verbatim>\<open>sizeStr.match(/[\d.]+/)\<close>: the first maximal run of digits and dots, if any.\<close>

definition isNumChar :: "nat \<Rightarrow> bool" where
  "isNumChar c \<longleftrightarrow> js_digit c \<or> c = 46"

definition match_number :: "ustring \<Rightarrow> ustring option" where
  "match_number s =
     (let r = dropWhile (\<lambda>c. \<not> isNumChar c) s
      in if r = [] then None else Some (takeWhile isNumChar r))"

definition digits_value :: "ustring \<Rightarrow> nat" where
  "digits_value ds = foldl (\<lambda>a c. 10 * a + (c - 48)) 0 ds"

text \<open>
  \<^verbatim>\<open>Number.parseFloat\<close> on such a run: the longest prefix that is a decimal literal
  (digits, optionally a dot and more digits, or a dot followed by digits) is read; when
  there is none the result is \<^verbatim>\<open>NaN\<close>.
\<close>

definition parseFloat :: "ustring \<Rightarrow> number" where
  "parseFloat m =
     (let ip = takeWhile js_digit m; rest = dropWhile js_digit m
      in case rest of
           [] \<Rightarrow> if ip = [] then NaN else Num (of_nat (digits_value ip))
         | c # rest' \<Rightarrow>
             if c = 46 then
               (let fp = takeWhile js_digit rest'
                in if ip = [] \<and> fp = [] then NaN
                   else Num (of_nat (digits_value ip) + of_nat (digits_value fp) / 10 ^ length fp))
             else if ip = [] then NaN else Num (of_nat (digits_value ip)))"

text \<open>The search engine's \<^verbatim>\<open>parseFileSize(sizeStr: string)\<close>.\<close>

definition parseFileSize :: "ustring \<Rightarrow> number" where
  "parseFileSize sizeStr =
     (if sizeStr = [] \<or> sizeStr = u ''N/A'' then Num 0
      else case match_number sizeStr of
             None \<Rightarrow> Num 0
           | Some m \<Rightarrow>
               (let num = parseFloat m
                in if includes_str sizeStr (u ''GB'') then num_times (num_times (num_times num 1024) 1024) 1024
                   else if includes_str sizeStr (u ''MB'') then num_times (num_times num 1024) 1024
                   else if includes_str sizeStr (u ''KB'') then num_times num 1024
                   else num))"

text \<open>
  The data store's private \<^verbatim>\<open>parseFileSize(sizeStr?: string)\<close>, which rounds every
  result; \<open>None\<close> is the absent argument.
\<close>

definition store_parseFileSize :: "ustring option \<Rightarrow> number" where
  "store_parseFileSize arg =
     (case arg of
        None \<Rightarrow> Num 0
      | Some sizeStr \<Rightarrow>
          if sizeStr = [] \<or> sizeStr = u ''N/A'' then Num 0
          else case match_number sizeStr of
                 None \<Rightarrow> Num 0
               | Some m \<Rightarrow>
                   (let num = parseFloat m
                    in if includes_str sizeStr (u ''GB'')
                       then Math_round (num_times (num_times (num_times num 1024) 1024) 1024)
                       else if includes_str sizeStr (u ''MB'') then Math_round (num_times (num_times num 1024) 1024)
                       else if includes_str sizeStr (u ''KB'') then Math_round (num_times num 1024)
                       else Math_round num))"

section \<open>Search enhancements: the bidirectional synonym table\<close>

text \<open>
  The synonym table, in the order of the object literal of the source (the order in which
  \<^verbatim>\<open>Object.entries\<close> enumerates it: no key is an array index).
\<close>

definition SYNONYMS_MAP :: "(ustring \<times> ustring list) list" where
  "SYNONYMS_MAP =
    [(u ''rpg'', [u ''role-playing'', u ''roleplaying'', u ''jrpg'', u ''crpg'', u ''action-rpg'']),
     (u ''skyrim'', [u ''elder scrolls'', u ''tes'', u ''bethesda'', u ''scrolls'']),
     (u ''fallout'', [u ''vault'', u ''bethesda'', u ''power armor'', u ''vault boy'']),
     (u ''witcher'', [u ''geralt'', u ''cdpr'', u ''cd projekt'', u ''monster hunter'']),
     (u ''dragon'', [u ''dragonborn'', u ''dragons'', u ''dungeons'']),
     (u ''elden'', [u ''ring'', u ''fromsoft'', u ''souls'']),
     (u ''souls'', [u ''soulslike'', u ''souls-like'', u ''dark souls'', u ''elden ring'']),
     (u ''gta'', [u ''grand theft auto'', u ''rockstar'', u ''sandbox crime'']),
     (u ''sandbox'', [u ''open world'', u ''freeform'', u ''exploration'']),
     (u ''minecraft'', [u ''blocks'', u ''crafting'', u ''building'', u ''voxel'']),
     (u ''wow'', [u ''world of warcraft'', u ''mmorpg'', u ''blizzard'', u ''warcraft'']),
     (u ''game'', [u ''jogo'', u ''gaming'', u ''video game'']),
     (u ''jogo'', [u ''game'', u ''gaming'']),
     (u ''fps'', [u ''first person'', u ''shooter'', u ''action'']),
     (u ''rts'', [u ''strategy'', u ''real-time'', u ''command conquer'']),
     (u ''simulation'', [u ''sim'', u ''simulator'', u ''simulated'']),
     (u ''adventure'', [u ''explorer'', u ''exploration'', u ''quest'']),
     (u ''action'', [u ''combat'', u ''fighting'', u ''battle'']),
     (u ''puzzle'', [u ''logic'', u ''brain teaser'', u ''riddle'']),
     (u ''horror'', [u ''terror'', u ''scary'', u ''survival horror'']),
     (u ''survival'', [u ''survival horror'', u ''crafting'', u ''resource management'']),
     (u ''platformer'', [u ''platform'', u ''side-scroller'', u ''jumping'']),
     (u ''racing'', [u ''race'', u ''car'', u ''driving'', u ''motorsport'']),
     (u ''sports'', [u ''athletic'', u ''competition'', u ''esports'']),
     (u ''fighting'', [u ''combat'', u ''versus'', u ''brawler'', u ''fighter'']),
     (u ''mod'', [u ''modification'', u ''mods'', u ''modding'', u (''modifica'' @ [CHR 0xE7, CHR 0xE3] @ ''o''), u ''modificacoes'']),
     (u ''patch'', [u ''update'', u ''fixes'', u ''fixed'', u ''hotfix'', u ''correcao'']),
     (u ''dlc'', [u ''expansion'', u ''addon'', u ''content'', u ''pack'', u ''season pass'']),
     (u ''skin'', [u ''cosmetic'', u ''outfit'', u ''appearance'', u ''texture pack'']),
     (u ''shader'', [u ''graphics mod'', u ''lighting'', u ''visual enhancement'']),
     (u ''texture'', [u ''textura'', u ''textures'', u ''texturas'', u ''graphics'', u ''visual'']),
     (u ''armor'', [u ''equipment'', u ''gear'', u ''outfit'', u ''suit'']),
     (u ''weapon'', [u ''sword'', u ''gun'', u ''rifle'', u ''tool'', u ''item'']),
     (u ''magic'', [u ''spell'', u ''sorcery'', u ''witchcraft'', u ''enchantment'']),
     (u ''quest'', [u ''mission'', u ''objective'', u ''task'', u ''adventure'']),
     (u ''fix'', [u ''fixed'', u ''fixing'', u ''repair'', u ''repaired'', u ''correcao'', u ''corrigido'']),
     (u ''tool'', [u ''utility'', u ''utils'', u ''utilities'', u ''ferramenta'', u ''toolkit'']),
     (u ''install'', [u ''installer'', u ''setup'', u ''installation'', u ''instalacao'']),
     (u ''backup'', [u ''saved'', u ''copy'', u ''copies'', u ''save data'', u ''savedata'']),
     (u ''save'', [u ''savedata'', u ''savefile'', u ''savegame'', u ''checkpoint'']),
     (u ''launcher'', [u ''loader'', u ''boot'', u ''executor'']),
     (u ''manager'', [u ''organizer'', u ''controller'', u ''handler'']),
     (u ''library'', [u ''collection'', u ''database'', u ''catalog'']),
     (u ''nvidia'', [u ''geforce'', u ''rtx'', u ''gtx'', u ''graphics card'', u ''gpu'']),
     (u ''amd'', [u ''radeon'', u ''rx'', u ''ryzen'', u ''processor'']),
     (u ''intel'', [u ''core'', u ''processor'', u ''cpu'', u ''xeon'']),
     (u ''cpu'', [u ''processor'', u ''processador'', u ''core'', u ''intel'', u ''amd'', u ''ryzen'']),
     (u ''gpu'', [u ''graphics'', u ''video'', u ''graphics card'', u ''geforce'', u ''radeon'']),
     (u ''ram'', [u ''memory'', u ''memoria'', u ''ddr'']),
     (u ''ssd'', [u ''solid state'', u ''storage'', u ''disk'']),
     (u ''hdd'', [u ''hard drive'', u ''disk'', u ''mechanical'']),
     (u ''hd'', [u ''high'', u ''definition'', u ''resolution'', u ''1080p'', u ''fullhd'']),
     (u ''4k'', [u ''uhd'', u ''ultra'', u ''2160p'', u ''8k'']),
     (u ''1080p'', [u ''fullhd'', u ''hd'', u ''1920x1080'']),
     (u ''720p'', [u ''hd ready'', u ''720'']),
     (u ''resolution'', [u ''quality'', u ''definition'', u ''graphics setting'']),
     (u ''framerate'', [u ''frame rate'', u ''performance'', u ''60fps'', u ''144fps'']),
     (u ''ultra'', [u ''maximum'', u ''high'', u ''quality'', u ''4k'']),
     (u ''high'', [u ''quality'', u ''settings'', u ''ultra'', u ''graphics'']),
     (u ''low'', [u ''minimum'', u ''settings'', u ''performance'', u ''lightweight'']),
     (u ''sound'', [u ''audio'', u ''som'', u ''sound effects'', u ''sfx'']),
     (u ''music'', [u ''soundtrack'', u ''musica'', u ''ost'', u ''score'', u ''background music'']),
     (u ''voice'', [u ''dialogue'', u ''voicepack'', u ''voice acting'']),
     (u ''subtitle'', [u ''subtitles'', u ''subs'', u ''closed caption'']),
     (u ''audio'', [u ''sound'', u ''music'', u ''voice'', u ''sonoro'']),
     (u ''video'', [u ''movie'', u ''trailer'', u ''cutscene'', u ''cinema'']),
     (u ''pt'', [u ''portuguese'', u ''portugues'', u ''brasil'', u ''br'', u (''portugu'' @ [CHR 0xEA] @ ''s'')]),
     (u ''en'', [u ''english'', u ''ingles'', u ''us'', u ''uk'', u ''american'', u ''british'']),
     (u ''es'', [u ''spanish'', u ''espanol'', u ''espanha'', u (''espa'' @ [CHR 0xF1] @ ''ol'')]),
     (u ''fr'', [u ''french'', u ''frances'', u ''francais'']),
     (u ''de'', [u ''german'', u ''deutsch'', u ''alemao'']),
     (u ''ru'', [u ''russian'', u ''russo'', u ''cyrillic'']),
     (u ''ja'', [u ''japanese'', u ''japones'', u ''nihongo'']),
     (u ''ch'', [u ''chinese'', u ''mandarin'', u ''cantonese'']),
     (u ''ko'', [u ''korean'', u ''korean language'']),
     (u ''br'', [u ''brazilian'', u ''brasil'', u ''portuguese'']),
     (u ''multilanguage'', [u ''multi-language'', u ''multilingual'', u ''localization'']),
     (u ''pc'', [u ''windows'', u ''steam'', u ''pc gaming'']),
     (u ''windows'', [u ''pc'', u ''win'', u ''microsoft'']),
     (u ''linux'', [u ''ubuntu'', u ''debian'', u ''proton'']),
     (u ''mac'', [u ''osx'', u ''macos'', u ''apple'']),
     (u ''steam'', [u ''valve'', u ''platform'', u ''pc gaming'']),
     (u ''epic'', [u ''epic games'', u ''launcher'']),
     (u ''gog'', [u ''good old games'', u ''drm-free'']),
     (u ''console'', [u ''playstation'', u ''xbox'', u ''nintendo'']),
     (u ''playstation'', [u ''ps4'', u ''ps5'', u ''sony'']),
     (u ''xbox'', [u ''x360'', u ''xone'', u ''microsoft'']),
     (u ''switch'', [u ''nintendo switch'', u ''portable'']),
     (u ''bethesda'', [u ''skyrim'', u ''fallout'', u ''oblivion'']),
     (u ''cdpr'', [u ''cd projekt'', u ''witcher'', u ''cyberpunk'']),
     (u ''fromsoft'', [u ''elden ring'', u ''dark souls'', u ''bloodborne'']),
     (u ''valve'', [u ''steam'', u ''half-life'', u ''portal'']),
     (u ''blizzard'', [u ''wow'', u ''diablo'', u ''starcraft'']),
     (u ''rockstar'', [u ''gta'', u ''red dead'', u ''max payne'']),
     (u ''ubisoft'', [u ''assassins creed'', u ''far cry'', u ''splinter cell'']),
     (u ''activision'', [u ''call of duty'', u ''world of warcraft'']),
     (u ''ea'', [u ''battlefield'', u ''fifa'', u ''sims'']),
     (u ''2k'', [u ''bioshock'', u ''borderlands'', u ''civilization'']),
     (u ''capcom'', [u ''resident evil'', u ''monster hunter'', u ''devil may cry'']),
     (u ''konami'', [u ''metal gear'', u ''castlevania'', u ''silent hill'']),
     (u ''square'', [u ''final fantasy'', u ''dragon quest'', u ''kingdom hearts'']),
     (u ''nintendo'', [u ''mario'', u ''zelda'', u ''pokemon'', u ''switch'']),
     (u ''sony'', [u ''playstation'', u ''god of war'', u ''uncharted'']),
     (u ''microsoft'', [u ''xbox'', u ''halo'', u ''gears of war'']),
     (u ''complete'', [u ''full'', u ''entire'', u ''100%'', u ''all dlc'']),
     (u ''remaster'', [u ''remake'', u ''enhanced'', u ''updated'', u ''version'']),
     (u ''classic'', [u ''old'', u ''retro'', u ''nostalgia'', u ''vintage'']),
     (u ''new'', [u ''latest'', u ''recent'', u ''updated'', u ''novo'']),
     (u ''free'', [u ''gratis'', u ''opensource'', u ''freeware'']),
     (u ''multiplayer'', [u ''mp'', u ''online'', u ''coop'', u ''pvp'']),
     (u ''singleplayer'', [u ''single'', u ''offline'', u ''campaign'']),
     (u ''coop'', [u ''co-op'', u ''cooperative'', u ''together'']),
     (u ''pvp'', [u ''player vs player'', u ''competitive'', u ''multiplayer'']),
     (u ''online'', [u ''internet'', u ''network'', u ''multiplayer'']),
     (u ''offline'', [u ''local'', u ''singleplayer'', u ''no connection''])]"

text \<open>
  \<^verbatim>\<open>SYNONYMS_MAP[term]\<close> reads a property of a plain object: an own key gives its
  list; otherwise a name inherited from \<^verbatim>\<open>Object.prototype\<close> gives a value that is
  truthy and is not an array; any other name gives \<^verbatim>\<open>undefined\<close>.
\<close>

definition object_prototype_keys :: "ustring list" where
  "object_prototype_keys =
     [u ''constructor'', u ''toString'', u ''toLocaleString'', u ''valueOf'', u ''hasOwnProperty'',
      u ''isPrototypeOf'', u ''propertyIsEnumerable'', u ''__proto__'', u ''__defineGetter__'',
      u ''__defineSetter__'', u ''__lookupGetter__'', u ''__lookupSetter__'']"

datatype property = Absent | Synonyms "ustring list" | Inherited

definition SYNONYMS_lookup :: "ustring \<Rightarrow> property" where
  "SYNONYMS_lookup term =
     (case map_of SYNONYMS_MAP term of
        Some syns \<Rightarrow> Synonyms syns
      | None \<Rightarrow> if term \<in> set object_prototype_keys then Inherited else Absent)"

datatype error = TypeError

text \<open>A \<^verbatim>\<open>Set\<close> of strings in insertion order, and \<^verbatim>\<open>Set.prototype.add\<close>.\<close>

definition set_add :: "ustring list \<Rightarrow> ustring \<Rightarrow> ustring list" where
  "set_add xs x = (if x \<in> set xs then xs else xs @ [x])"

definition set_add_all :: "ustring list \<Rightarrow> ustring list \<Rightarrow> ustring list" where
  "set_add_all xs ys = fold (\<lambda>y acc. set_add acc y) ys xs"

text \<open>The inner loop over the entries of the table: the reverse synonyms of one term.\<close>

definition reverse_synonyms :: "ustring \<Rightarrow> ustring list \<Rightarrow> ustring list" where
  "reverse_synonyms term expanded =
     fold (\<lambda>(key, synonyms) acc.
             if term \<in> set synonyms then set_add_all (set_add acc key) synonyms else acc)
          SYNONYMS_MAP expanded"

text \<open>
  The outer loop of \<^verbatim>\<open>expandSearchTermsWithSynonyms\<close>. Calling \<^verbatim>\<open>forEach\<close> on an
  inherited property throws a \<^verbatim>\<open>TypeError\<close>.
\<close>

fun expand_loop :: "ustring list \<Rightarrow> ustring list \<Rightarrow> error + ustring list" where
  "expand_loop [] expanded = Inr expanded"
| "expand_loop (term # rest) expanded =
     (case SYNONYMS_lookup term of
        Inherited \<Rightarrow> Inl TypeError
      | Synonyms directSynonyms \<Rightarrow>
          expand_loop rest (reverse_synonyms term (set_add_all expanded directSynonyms))
      | Absent \<Rightarrow> expand_loop rest (reverse_synonyms term expanded))"

definition expandSearchTermsWithSynonyms :: "ustring list \<Rightarrow> error + ustring list" where
  "expandSearchTermsWithSynonyms terms = expand_loop terms (set_add_all [] terms)"

section \<open>De-duplication across catalogs (lib/search.ts)\<close>

text \<open>
  \<^verbatim>\<open>processAndDeduplicateDownloads\<close>. The \<^verbatim>\<open>Map\<close> named \<^verbatim>\<open>processed\<close> is shared by
  all catalogs; it is threaded through as the list of the keys seen so far. A catalog
  without a name contributes nothing and marks nothing as seen.
\<close>

definition invalid_title :: "DownloadType \<Rightarrow> bool" where
  "invalid_title dl \<longleftrightarrow> trim (title dl) = [] \<or> title dl = u ''Wkeynhk''"

definition dedup_key :: "DownloadType \<Rightarrow> ustring" where
  "dedup_key dl = title dl @ u '':'' @ uploadDate dl"

fun filter_downloads :: "ustring list \<Rightarrow> DownloadType list \<Rightarrow> DownloadType list \<times> ustring list" where
  "filter_downloads processed [] = ([], processed)"
| "filter_downloads processed (dl # dls) =
     (if invalid_title dl then filter_downloads processed dls
      else if dedup_key dl \<in> set processed then filter_downloads processed dls
      else (case filter_downloads (dedup_key dl # processed) dls of
              (kept, processed') \<Rightarrow> (dl # kept, processed')))"

definition stamp :: "ustring \<Rightarrow> DownloadType \<Rightarrow> DownloadType" where
  "stamp gogName dl = dl\<lparr>source := Some gogName, fileSizeBytes := Some (parseFileSize (fileSize dl))\<rparr>"

fun dedup_gogs :: "ustring list \<Rightarrow> GogData list \<Rightarrow> DownloadType list" where
  "dedup_gogs processed [] = []"
| "dedup_gogs processed (gog # gogs) =
     (if name gog = [] then dedup_gogs processed gogs
      else (case filter_downloads processed (downloads gog) of
              (filtered, processed') \<Rightarrow> map (stamp (name gog)) filtered @ dedup_gogs processed' gogs))"

definition processAndDeduplicateDownloads :: "GogData list \<Rightarrow> DownloadType list" where
  "processAndDeduplicateDownloads gogs = dedup_gogs [] gogs"

text \<open>
  The specification's description of the same function, step by step: flatten the
  download lists, each record paired with the name of its catalog; drop the records
  with an invalid title; keep the first occurrence of each (title, uploadDate) pair;
  stamp the survivors.
\<close>

definition flatten_gogs :: "GogData list \<Rightarrow> (ustring \<times> DownloadType) list" where
  "flatten_gogs gogs = concat (map (\<lambda>gog. map (\<lambda>dl. (name gog, dl)) (downloads gog)) gogs)"

fun first_occurrences :: "('a \<Rightarrow> 'k) \<Rightarrow> 'a list \<Rightarrow> 'a list" where
  "first_occurrences f [] = []"
| "first_occurrences f (x # xs) = x # first_occurrences f (filter (\<lambda>y. f y \<noteq> f x) xs)"

definition spec_deduplicate :: "GogData list \<Rightarrow> DownloadType list" where
  "spec_deduplicate gogs =
     map (\<lambda>(n, dl). stamp n dl)
       (first_occurrences (\<lambda>(n, dl). (title dl, uploadDate dl))
          (filter (\<lambda>(n, dl). \<not> invalid_title dl) (flatten_gogs gogs)))"

text \<open>Keeping the records whose key is new, given the keys seen so far.\<close>

fun keep_new :: "('a \<Rightarrow> 'k) \<Rightarrow> 'k list \<Rightarrow> 'a list \<Rightarrow> 'a list" where
  "keep_new f seen [] = []"
| "keep_new f seen (x # xs) =
     (if f x \<in> set seen then keep_new f seen xs else x # keep_new f (f x # seen) xs)"

section \<open>The data store (hooks/use-data-state.ts)\<close>

text \<open>
  The control-character sanitiser applied to text of URL sources. Each replacement of the
  source handles one character at a time, except the final collapse of white space.
\<close>

definition sanitizeForNormalization :: "ustring option \<Rightarrow> ustring" where
  "sanitizeForNormalization arg =
     (case arg of
        None \<Rightarrow> []
      | Some s \<Rightarrow>
          if s = [] then []
          else
            (let o1 = filter (\<lambda>c. c \<noteq> 65279) s;
                 o2 = filter (\<lambda>c. \<not> ((8203 \<le> c \<and> c \<le> 8207) \<or> (8234 \<le> c \<and> c \<le> 8238)
                                      \<or> (8288 \<le> c \<and> c \<le> 8303))) o1;
                 o3 = map (\<lambda>c. if c \<le> 31 \<or> (127 \<le> c \<and> c \<le> 159) then 32 else c) o2;
                 o4 = map (\<lambda>c. if (8208 \<le> c \<and> c \<le> 8213) \<or> c = 8722 then 32 else c) o3;
                 o5 = replace_runs js_space [32] o4
             in trim o5))"

text \<open>\<^verbatim>\<open>Array.prototype.join(' ')\<close>.\<close>

fun join_space :: "ustring list \<Rightarrow> ustring" where
  "join_space [] = []"
| "join_space [x] = x"
| "join_space (x # y # ys) = x @ [32] @ join_space (y # ys)"

definition MAX_GOG_SOURCES :: nat where
  "MAX_GOG_SOURCES = 50"

definition MAX_DOWNLOADS_PER_SOURCE :: nat where
  "MAX_DOWNLOADS_PER_SOURCE = 200"

text \<open>\<^verbatim>\<open>normalizeGogData\<close>: at most 200 records are kept, each with its computed fields.\<close>

definition normalizeGogData :: "host \<Rightarrow> GogData \<Rightarrow> GogData" where
  "normalizeGogData H src =
     src\<lparr>downloads :=
          map (\<lambda>dl. dl\<lparr>fileSizeBytes := Some (store_parseFileSize (Some (fileSize dl))),
                        titleNormalized := Some (normalizeText H (Some (title dl))),
                        sourceNormalized :=
                          Some (normalizeText H (Some (case source dl of None \<Rightarrow> name src | Some s \<Rightarrow> s))),
                        urisNormalized := Some (normalizeText H (Some (join_space (uris dl)))),
                        ingestionSource := None\<rparr>)
              (take MAX_DOWNLOADS_PER_SOURCE (downloads src))\<rparr>"

datatype source_type = File | Url

record SavedSource =
  savedName :: ustring
  savedUrl :: ustring
  savedType :: source_type
  lastUpdated :: ustring
  serverId :: "ustring option"

text \<open>
  The state of the store, together with the module-level set \<^verbatim>\<open>uploadInProgress\<close>.
  Notifications to the user (toasts) and log lines are not modelled.
\<close>

record DataState =
  gogData :: "GogData list"
  savedSources :: "SavedSource list"
  uploadInProgress :: "ustring list"

definition initial_state :: DataState where
  "initial_state = \<lparr>gogData = [], savedSources = [], uploadInProgress = []\<rparr>"

text \<open>\<^verbatim>\<open>xs.slice(-n)\<close>: the last \<open>n\<close> elements.\<close>

definition slice_last :: "nat \<Rightarrow> 'a list \<Rightarrow> 'a list" where
  "slice_last n xs = drop (length xs - n) xs"

text \<open>Replacing the first element that satisfies \<open>P\<close>, or appending when there is none.\<close>

fun put_at_first :: "('a \<Rightarrow> bool) \<Rightarrow> 'a \<Rightarrow> 'a list \<Rightarrow> 'a list" where
  "put_at_first P y [] = [y]"
| "put_at_first P y (x # xs) = (if P x then y # xs else x # put_at_first P y xs)"

definition truthy :: "ustring option \<Rightarrow> bool" where
  "truthy s = (case s of None \<Rightarrow> False | Some x \<Rightarrow> x \<noteq> [])"

text \<open>
  The catalog as \<^verbatim>\<open>addGogData\<close> stores it: normalised, re-normalised after sanitising
  when it comes from a URL, and tagged with its ingestion channel.
\<close>

definition prepare_catalog :: "host \<Rightarrow> GogData \<Rightarrow> ustring option \<Rightarrow> GogData" where
  "prepare_catalog H d sourceUrl =
     (let prunedData = normalizeGogData H d;
          sanitized =
            (if truthy sourceUrl
             then prunedData\<lparr>downloads :=
                    map (\<lambda>dl. dl\<lparr>titleNormalized :=
                                    Some (normalizeText H (Some (sanitizeForNormalization (Some (title dl))))),
                                  urisNormalized :=
                                    Some (normalizeText H (Some (sanitizeForNormalization (Some (join_space (uris dl))))))\<rparr>)
                        (downloads prunedData)\<rparr>
             else prunedData);
          sourceTag = (if truthy sourceUrl then u ''url'' else u ''file'')
      in sanitized\<lparr>downloads := map (\<lambda>dl. dl\<lparr>ingestionSource := Some sourceTag\<rparr>) (downloads sanitized)\<rparr>)"

text \<open>
  Merging a catalog into the list: a catalog of the same name is removed, the new one is
  appended, and only the last 50 are kept.
\<close>

definition merge_catalog :: "GogData \<Rightarrow> GogData list \<Rightarrow> GogData list" where
  "merge_catalog g gs =
     (let newGogData = filter (\<lambda>x. name x \<noteq> name g) gs @ [g]
      in if length newGogData > MAX_GOG_SOURCES then slice_last MAX_GOG_SOURCES newGogData
         else newGogData)"

text \<open>
  \<^verbatim>\<open>addGogData(data, sourceUrl?)\<close> at the time \<open>now\<close> (an ISO string). A call for a
  name whose upload is in progress changes nothing. A file source stays in progress
  until its upload settles; a URL source is released at once.
\<close>

definition addGogData :: "host \<Rightarrow> ustring \<Rightarrow> DataState \<Rightarrow> GogData \<Rightarrow> ustring option \<Rightarrow> DataState" where
  "addGogData H now st d sourceUrl =
     (if name d \<in> set (uploadInProgress st) then st
      else
        (let prunedData = prepare_catalog H d sourceUrl;
             meta = \<lparr>savedName = name prunedData,
                     savedUrl = (case sourceUrl of None \<Rightarrow> [] | Some s \<Rightarrow> s),
                     savedType = (if truthy sourceUrl then Url else File),
                     lastUpdated = now, serverId = None\<rparr>;
             newSaved =
               (if truthy sourceUrl
                then put_at_first (\<lambda>s. Some (savedUrl s) = sourceUrl) meta (savedSources st)
                else put_at_first (\<lambda>s. savedName s = name prunedData \<and> savedType s = File) meta
                       (savedSources st))
         in \<lparr>gogData = merge_catalog prunedData (gogData st),
             savedSources = newSaved,
             uploadInProgress =
               (if truthy sourceUrl then uploadInProgress st else name d # uploadInProgress st)\<rparr>))"

text \<open>
  The upload of a file source settles: with the identifier given by the server, or with a
  failure (\<open>None\<close>). Either way the name is released.
\<close>

definition uploadSettled :: "DataState \<Rightarrow> ustring \<Rightarrow> ustring option \<Rightarrow> DataState" where
  "uploadSettled st n result =
     st\<lparr>savedSources :=
          (case result of
             None \<Rightarrow> savedSources st
           | Some sid \<Rightarrow> map (\<lambda>ss. if savedName ss = n then ss\<lparr>serverId := Some sid\<rparr> else ss)
                           (savedSources st)),
        uploadInProgress := filter (\<lambda>x. x \<noteq> n) (uploadInProgress st)\<rparr>"

definition removeSource :: "DataState \<Rightarrow> ustring \<Rightarrow> DataState" where
  "removeSource st sourceName =
     st\<lparr>gogData := filter (\<lambda>g. name g \<noteq> sourceName) (gogData st),
        savedSources := filter (\<lambda>s. savedName s \<noteq> sourceName) (savedSources st)\<rparr>"

text \<open>
  \<^verbatim>\<open>loadSavedSource(id)\<close>: \<open>response\<close> is the catalog the server returned, or
  \<open>None\<close> when the download or the parsing failed, in which case nothing changes.
\<close>

definition rehydrate_catalog :: "host \<Rightarrow> GogData \<Rightarrow> GogData" where
  "rehydrate_catalog H d =
     (let n = normalizeGogData H d
      in n\<lparr>downloads := map (\<lambda>dl. dl\<lparr>ingestionSource := Some (u ''file'')\<rparr>) (downloads n)\<rparr>)"

definition loadSavedSource :: "host \<Rightarrow> DataState \<Rightarrow> GogData option \<Rightarrow> DataState" where
  "loadSavedSource H st response =
     (case response of
        None \<Rightarrow> st
      | Some d \<Rightarrow> st\<lparr>gogData := merge_catalog (rehydrate_catalog H d) (gogData st)\<rparr>)"

text \<open>The operations of the store, and a run of them from a state.\<close>

datatype store_op =
    AddGogData ustring GogData "ustring option"
  | UploadSettled ustring "ustring option"
  | RemoveSource ustring
  | LoadSavedSource "GogData option"

fun store_step :: "host \<Rightarrow> DataState \<Rightarrow> store_op \<Rightarrow> DataState" where
  "store_step H st (AddGogData now d sourceUrl) = addGogData H now st d sourceUrl"
| "store_step H st (UploadSettled n result) = uploadSettled st n result"
| "store_step H st (RemoveSource n) = removeSource st n"
| "store_step H st (LoadSavedSource response) = loadSavedSource H st response"

definition store_run :: "host \<Rightarrow> store_op list \<Rightarrow> DataState" where
  "store_run H ops = foldl (store_step H) initial_state ops"

definition store_invariant :: "DataState \<Rightarrow> bool" where
  "store_invariant st \<longleftrightarrow>
     length (gogData st) \<le> 50 \<and> distinct (map name (gogData st))
     \<and> (\<forall>g \<in> set (gogData st). length (downloads g) \<le> 200)"

text \<open>
  Adding a catalog as the specification describes it: a catalog of the same name is
  replaced, the new catalog being the latest of the list; otherwise the catalog is added,
  and when the list is full its oldest catalog, the first, is dropped.
\<close>

definition spec_add :: "GogData \<Rightarrow> GogData list \<Rightarrow> GogData list" where
  "spec_add p old =
     (if name p \<in> set (map name old) then filter (\<lambda>g. name g \<noteq> name p) old @ [p]
      else if length old < 50 then old @ [p]
      else tl old @ [p])"

section \<open>The source loader (lib/search.ts and lib/url-cache.ts)\<close>

text \<open>
  The module-level bookkeeping of the loader and the local response cache (an IndexedDB
  store mapping a URL to the cached catalog and the time it was stored). Times are
  milliseconds, as \<^verbatim>\<open>Date.now()\<close> returns them.
\<close>

record LoaderState =
  processedUrlLoads :: "ustring list"
  recentlyRemovedUrls :: "ustring list"
  failedUrlAt :: "(ustring \<times> int) list"
  urlCache :: "(ustring \<times> GogData \<times> int) list"

definition FAILED_URL_RETRY_MS :: int where
  "FAILED_URL_RETRY_MS = 10 * 60 * 1000"

definition CACHE_EXPIRY :: int where
  "CACHE_EXPIRY = 24 * 60 * 60 * 1000"

text \<open>
  \<^verbatim>\<open>getCachedUrl\<close>: an entry older than the expiry time is deleted and reported as
  absent. A failure of the database is reported as absent too and is not modelled apart.
\<close>

definition getCachedUrl :: "int \<Rightarrow> LoaderState \<Rightarrow> ustring \<Rightarrow> GogData option \<times> LoaderState" where
  "getCachedUrl now st url =
     (case map_of (urlCache st) url of
        None \<Rightarrow> (None, st)
      | Some (d, timestamp) \<Rightarrow>
          if now - timestamp > CACHE_EXPIRY
          then (None, st\<lparr>urlCache := AList.delete url (urlCache st)\<rparr>)
          else (Some d, st))"

definition cacheUrlData :: "int \<Rightarrow> LoaderState \<Rightarrow> ustring \<Rightarrow> GogData \<Rightarrow> LoaderState" where
  "cacheUrlData now st url d = st\<lparr>urlCache := AList.update url (d, now) (urlCache st)\<rparr>"

text \<open>
  What the network gives for a URL: the fetch is rejected (time-out, abort, connection
  failure), the status is not OK, the body looks like HTML, the body is not JSON, the
  JSON is not a catalog, or it is a catalog.
\<close>

datatype fetch_outcome = Rejected | NotOk | HtmlBody | ParseError | InvalidShape | Valid GogData

text \<open>What the loader does that the outside can see: a network call, or a callback.\<close>

datatype loader_event = Fetch ustring | OnAddData GogData ustring | OnError

definition record_failure :: "int \<Rightarrow> ustring \<Rightarrow> LoaderState \<Rightarrow> LoaderState" where
  "record_failure t url st = st\<lparr>failedUrlAt := AList.update url t (failedUrlAt st)\<rparr>"

text \<open>\<^verbatim>\<open>lastFailed && Date.now() - lastFailed < FAILED_URL_RETRY_MS\<close>.\<close>

definition recently_failed :: "int \<Rightarrow> LoaderState \<Rightarrow> ustring \<Rightarrow> bool" where
  "recently_failed now st url =
     (case map_of (failedUrlAt st) url of
        None \<Rightarrow> False
      | Some lastFailed \<Rightarrow> lastFailed \<noteq> 0 \<and> now - lastFailed < FAILED_URL_RETRY_MS)"

text \<open>
  \<^verbatim>\<open>loadSingleSource\<close> for the source named \<open>srcName\<close> at \<open>url\<close>. \<open>now\<close> is the clock
  when the call starts and \<open>later\<close> the clock when the network has answered;
  \<open>hasOnError\<close> tells whether the optional error callback was supplied. The result
  is the new bookkeeping and the events in order.
\<close>

definition loadSingleSource ::
  "int \<Rightarrow> int \<Rightarrow> bool \<Rightarrow> (ustring \<Rightarrow> fetch_outcome) \<Rightarrow> LoaderState \<Rightarrow> ustring \<Rightarrow> ustring
     \<Rightarrow> LoaderState \<times> loader_event list" where
  "loadSingleSource now later hasOnError network st srcName url =
     (if url \<in> set (processedUrlLoads st) then (st, [])
      else
        (case getCachedUrl now st url of
           (Some cached, st1) \<Rightarrow>
             (st1\<lparr>processedUrlLoads := url # processedUrlLoads st1\<rparr>, [OnAddData cached url])
         | (None, st1) \<Rightarrow>
             if recently_failed now st1 url then (st1, [])
             else if url \<in> set (recentlyRemovedUrls st1) \<or> srcName \<in> set (recentlyRemovedUrls st1)
             then (st1, [])
             else
               (case network url of
                  Rejected \<Rightarrow>
                    (record_failure later url st1, Fetch url # (if hasOnError then [OnError] else []))
                | NotOk \<Rightarrow> (record_failure later url st1, [Fetch url])
                | HtmlBody \<Rightarrow> (record_failure later url st1, [Fetch url])
                | ParseError \<Rightarrow>
                    (record_failure later url st1, Fetch url # (if hasOnError then [OnError] else []))
                | InvalidShape \<Rightarrow> (record_failure later url st1, [Fetch url])
                | Valid json \<Rightarrow>
                    (let st2 = cacheUrlData later st1 url json
                     in (st2\<lparr>processedUrlLoads := url # processedUrlLoads st2\<rparr>,
                         [Fetch url, OnAddData json url]))))) "

text \<open>\<^verbatim>\<open>markSourceAsRemoved\<close>.\<close>

definition markSourceAsRemoved :: "LoaderState \<Rightarrow> ustring \<Rightarrow> ustring option \<Rightarrow> LoaderState" where
  "markSourceAsRemoved st sourceName url =
     (case url of
        None \<Rightarrow> st\<lparr>recentlyRemovedUrls := sourceName # recentlyRemovedUrls st\<rparr>
      | Some x \<Rightarrow>
          if x = [] then st\<lparr>recentlyRemovedUrls := sourceName # recentlyRemovedUrls st\<rparr>
          else st\<lparr>recentlyRemovedUrls := sourceName # x # recentlyRemovedUrls st,
                  processedUrlLoads := x # processedUrlLoads st\<rparr>)"

definition loader_initial :: LoaderState where
  "loader_initial = \<lparr>processedUrlLoads = [], recentlyRemovedUrls = [], failedUrlAt = [], urlCache = []\<rparr>"

section \<open>The helpers of the search engine (lib/types.ts)\<close>

text \<open>
  The search engine imports \<^verbatim>\<open>expandSearchTermsWithSynonyms\<close>, \<^verbatim>\<open>getRecencyBonus\<close>,
  \<^verbatim>\<open>extractExactPhrases\<close> and \<^verbatim>\<open>checkExactPhrases\<close> from \<^verbatim>\<open>./types\<close>, the module
  that declares \<^verbatim>\<open>DownloadType\<close> and \<^verbatim>\<open>GogData\<close>. That module has a synonym table
  and an expansion of its own, with direct synonyms only; they carry the suffix
  \<open>_types\<close> here, the names without suffix being those of the bidirectional table above.
\<close>

definition SYNONYMS_MAP_types :: "(ustring \<times> ustring list) list" where
  "SYNONYMS_MAP_types =
    [(u ''skyrim'', [u ''elder scrolls'', u ''tes 5'', u ''tesv'', u ''the elder scrolls v'']),
     (u ''witcher'', [u ''the witcher 3'', u ''tw3'', u ''cdpr'']),
     (u ''gta'', [u ''grand theft auto'', u ''rockstar games'']),
     (u ''minecraft'', [u ''mc'', u ''mojang'']),
     (u ''valorant'', [u ''riot games'', u ''tactical shooter'']),
     (u ''rpg'', [u ''role playing game'', u ''roleplay'', u ''character'']),
     (u ''fps'', [u ''first person shooter'', u ''shooter'']),
     (u ''moba'', [u ''multiplayer online battle arena'']),
     (u ''mmo'', [u ''massively multiplayer online'']),
     (u ''pc'', [u ''windows'', u ''steam'', u ''pc game'']),
     (u ''console'', [u ''xbox'', u ''playstation'', u ''ps'']),
     (u ''mobile'', [u ''android'', u ''ios'', u ''smartphone'']),
     (u ''remaster'', [u ''remake'', u ''hd'', u ''enhanced edition'', u ''deluxe'']),
     (u ''mod'', [u ''modification'', u ''modpack'', u ''addon'']),
     (u ''dlc'', [u ''expansion'', u ''content pack'', u ''season pass'']),
     (u ''jogo'', [u ''game'', u ''videogame'']),
     (u (''edi'' @ [CHR 0xE7, CHR 0xE3] @ ''o''), [u ''version'', u ''build'', u ''edition'']),
     (u ''completo'', [u ''complete'', u ''full'', u ''bundled''])]"

text \<open>
  \<^verbatim>\<open>SYNONYMS_MAP[key]\<close> on this table: an own key, a name inherited from
  \<^verbatim>\<open>Object.prototype\<close>, or \<^verbatim>\<open>undefined\<close>.
\<close>

definition SYNONYMS_lookup_types :: "ustring \<Rightarrow> property" where
  "SYNONYMS_lookup_types key =
     (case map_of SYNONYMS_MAP_types key of
        Some syns \<Rightarrow> Synonyms syns
      | None \<Rightarrow> if key \<in> set object_prototype_keys then Inherited else Absent)"

text \<open>
  The loop of \<^verbatim>\<open>expandSearchTermsWithSynonyms\<close>: the synonyms of the lower-cased term
  are added to the set. An inherited property is truthy and has no \<^verbatim>\<open>forEach\<close>, so the
  call throws a \<^verbatim>\<open>TypeError\<close>.
\<close>

fun expand_loop_types :: "host \<Rightarrow> ustring list \<Rightarrow> ustring list \<Rightarrow> error + ustring list" where
  "expand_loop_types H [] expandedTerms = Inr expandedTerms"
| "expand_loop_types H (t # rest) expandedTerms =
     (case SYNONYMS_lookup_types (toLowerCase H t) of
        Inherited \<Rightarrow> Inl TypeError
      | Synonyms synonyms \<Rightarrow> expand_loop_types H rest (set_add_all expandedTerms synonyms)
      | Absent \<Rightarrow> expand_loop_types H rest expandedTerms)"

definition expandSearchTermsWithSynonyms_types :: "host \<Rightarrow> ustring list \<Rightarrow> error + ustring list" where
  "expandSearchTermsWithSynonyms_types H terms = expand_loop_types H terms (set_add_all [] terms)"



text \<open>
  The pattern \<^verbatim>\<open>/"([^"]+)"/\<close> tried at the start of a string: a double quote, at least
  one other character, and the next double quote. The result is the text between the
  quotes and what follows the closing quote.
\<close>

definition match_quoted :: "ustring \<Rightarrow> (ustring \<times> ustring) option" where
  "match_quoted s =
     (case s of
        [] \<Rightarrow> None
      | c # cs \<Rightarrow>
          if c = 34 \<and> takeWhile (\<lambda>x. x \<noteq> 34) cs \<noteq> [] \<and> dropWhile (\<lambda>x. x \<noteq> 34) cs \<noteq> []
          then Some (takeWhile (\<lambda>x. x \<noteq> 34) cs, tl (dropWhile (\<lambda>x. x \<noteq> 34) cs))
          else None)"

text \<open>
  The loop of \<^verbatim>\<open>phraseRegex.exec(query)\<close>: the quoted texts of all matches, from left
  to right.
\<close>

function find_phrases :: "ustring \<Rightarrow> ustring list" where
  "find_phrases [] = []"
| "find_phrases (c # cs) =
     (case match_quoted (c # cs) of
        Some (inner, rest) \<Rightarrow> inner # find_phrases rest
      | None \<Rightarrow> find_phrases cs)"
  by pat_completeness auto
termination
  by (relation "measure length")
     (auto simp: match_quoted_def less_Suc_eq_le split: if_splits
           intro: order_trans[OF diff_le_self length_dropWhile_le])

text \<open>
  \<^verbatim>\<open>query.replace(/"[^"]*"/g, "")\<close>: every quoted stretch, also an empty one, is
  removed; a quote without a closing quote stays.
\<close>

function remove_quoted :: "ustring \<Rightarrow> ustring" where
  "remove_quoted [] = []"
| "remove_quoted (c # cs) =
     (if c = 34 \<and> dropWhile (\<lambda>x. x \<noteq> 34) cs \<noteq> []
      then remove_quoted (tl (dropWhile (\<lambda>x. x \<noteq> 34) cs))
      else c # remove_quoted cs)"
  by pat_completeness auto
termination
  by (relation "measure length")
     (auto simp: less_Suc_eq_le intro: order_trans[OF diff_le_self length_dropWhile_le])

definition extractExactPhrases :: "ustring \<Rightarrow> ustring list \<times> ustring" where
  "extractExactPhrases query = (map trim (find_phrases query), trim (remove_quoted query))"



section \<open>The search engine (lib/search.ts)\<close>

definition DEFAULT_STOPWORDS :: "ustring list" where
  "DEFAULT_STOPWORDS =
    [u ''the'', u ''a'', u ''an'', u ''and'', u ''or'', u ''but'', u ''if'', u ''else'',
      u ''while'', u ''for'', u ''to'', u ''of'', u ''in'', u ''on'', u ''at'', u ''by'',
      u ''from'', u ''with'', u ''without'', u ''up'', u ''down'', u ''is'', u ''am'',
      u ''are'', u ''was'', u ''were'', u ''be'', u ''been'', u ''being'', u ''have'',
      u ''has'', u ''had'', u ''do'', u ''does'', u ''did'', u ''will'', u ''would'',
      u ''should'', u ''could'', u ''can'', u ''may'', u ''might'', u ''must'', u ''shall'',
      u ''i'', u ''you'', u ''he'', u ''she'', u ''it'', u ''we'', u ''they'', u ''me'',
      u ''him'', u ''her'', u ''us'', u ''them'', u ''my'', u ''your'', u ''his'', u ''her'',
      u ''its'', u ''our'', u ''their'', u ''this'', u ''that'', u ''these'', u ''those'',
      u ''what'', u ''which'', u ''who'', u ''whom'', u ''why'', u ''how'', u ''as'',
      u ''than'', u ''into'', u ''through'', u ''during'', u ''before'', u ''after'',
      u ''above'', u ''below'', u ''between'', u ''under'', u ''over'', u ''out'', u ''off'',
      u ''about'', u ''against'', u ''along'', u ''around'', u ''such'', u ''so'', u ''some'',
      u ''no'', u ''not'', u ''only'', u ''just'', u ''very'', u ''too'', u ''all'',
      u ''each'', u ''o'', u ''a'', u ''os'', u ''as'', u ''um'', u ''uma'', u ''uns'',
      u ''umas'', u ''de'', u ''do'', u ''da'', u ''dos'', u ''das'', u ''e'', u ''ou'',
      u ''mais'', u ''menos'', u ''em'', u ''no'', u ''na'', u ''nos'', u ''nas'', u ''por'',
      u ''para'', u ''com'', u ''sem'', u ([CHR 0xE9]), u (''s'' @ [CHR 0xE3] @ ''o''),
      u ''era'', u ''eram'', u ''foi'', u ''foram'', u ''ser'', u ''estar'', u ''tem'',
      u (''t'' @ [CHR 0xEA] @ ''m''), u ''tinha'', u ''tinham'', u ''teve'', u ''tiveram'',
      u ''ter'', u ''eu'', u ''tu'', u (''voc'' @ [CHR 0xEA]), u ''ele'', u ''ela'',
      u (''n'' @ [CHR 0xF3] @ ''s''), u (''v'' @ [CHR 0xF3] @ ''s''), u ''eles'', u ''elas'',
      u ''me'', u ''te'', u ''se'', u ''lhe'', u ''nos'', u ''vos'', u ''lhes'', u ''meu'',
      u ''teu'', u ''seu'', u ''nosso'', u ''vosso'', u ''dele'', u ''dela'', u ''este'',
      u ''esse'', u ''aquele'', u ''este'', u ''essa'', u ''aquela'', u ''que'', u ''qual'',
      u ''quais'', u ''quanto'', u ''quantos'', u ''quanta'', u ''quantas'', u ''como'',
      u ''quando'', u ''onde'', u (''porqu'' @ [CHR 0xEA]), u ''porque'',
      u (''n'' @ [CHR 0xE3] @ ''o''), u ''sim'', u ''talvez'', u ''apenas'',
      u (''s'' @ [CHR 0xF3]), u ''somente'', u ''muito'', u ''todo'', u ''toda'', [1080],
      [1074], [1074, 1086], [1085, 1077], [1095, 1090, 1086], [1086, 1085], [1085, 1072],
      [1103], [1089], [1089, 1086], [1072], [1090, 1086], [1074, 1089, 1077],
      [1086, 1085, 1072], [1090, 1072, 1082], [1077, 1075, 1086], [1085, 1086], [1076, 1072],
      [1090, 1099], [1082], [1091], [1078, 1077], [1074, 1099], [1079, 1072], [1073, 1099],
      [1087, 1086], [1090, 1086, 1083, 1100, 1082, 1086], [1077, 1077],
      [1084, 1086, 1078, 1077, 1090], [1086, 1085, 1080], [1080, 1079], [1077, 1084, 1091],
      [1077, 1097, 1077], [1085, 1077, 1090], [1086, 1090], [1085, 1080],
      [1073, 1099, 1090, 1100], [1091], [1078], [1074, 1086, 1090], [1074, 1077, 1076, 1100],
      [1090, 1072, 1084], [1090, 1077, 1084], [1095, 1077, 1084], [1089, 1077, 1073, 1103],
      [1085, 1080, 1095, 1077, 1075, 1086], [1077, 1081], [1084, 1086, 1078, 1077, 1090],
      [1086, 1085, 1080], [1090, 1086, 1090], [1076, 1083, 1103],
      [1087, 1086, 1090, 1086, 1084], [1089, 1077, 1073, 1077],
      [1085, 1080, 1095, 1077, 1075, 1086], [1077, 1081], [1084, 1086, 1078, 1077, 1090],
      [1086, 1085, 1080], [1101, 1090, 1086, 1090], [1082, 1072, 1082, 1072, 1103],
      [1084, 1085, 1086, 1075, 1086], [1088, 1072, 1079, 1074, 1077], [1090, 1088, 1080],
      [1101, 1090, 1091], [1084, 1086, 1103], [1074, 1087, 1088, 1086, 1095, 1077, 1084],
      [1093, 1086, 1090, 1100], [1087, 1086, 1089, 1083, 1077], [1085, 1072, 1076],
      [1073, 1086, 1083, 1100, 1096, 1077], [1090, 1086, 1090],
      [1095, 1077, 1088, 1077, 1079], [1101, 1090, 1080], [1085, 1072, 1089],
      [1087, 1088, 1086], [1074, 1089, 1077, 1093], [1085, 1080, 1093],
      [1082, 1072, 1082, 1072, 1103], [1084, 1085, 1086, 1075, 1086],
      [1088, 1072, 1079, 1074, 1077], [1090, 1088, 1080], [1101, 1090, 1091],
      [1084, 1086, 1103], [1074, 1087, 1088, 1086, 1095, 1077, 1084],
      [1093, 1086, 1090, 1100], u ''after'', [1085, 1072, 1076],
      [1073, 1086, 1083, 1100, 1096, 1077], [1090, 1086, 1090],
      [1095, 1077, 1088, 1077, 1079], [1101, 1090, 1080], [1085, 1072, 1089],
      [1087, 1088, 1086], [1074, 1089, 1077, 1093], [1085, 1080, 1093]]"

text \<open>
  The two caches of the derived search text: the \<^verbatim>\<open>WeakMap\<close> keyed by the record
  object, and the LRU cache of capacity 5000 keyed by \<^verbatim>\<open>title:uploadDate\<close>, whose
  entries also hold the title and the date they were computed for.
\<close>

type_synonym search_entry = "ustring \<times> ustring list"




text \<open>\<^verbatim>\<open>a || b\<close> for an optional string \<open>a\<close>: absent and empty are both falsy.\<close>

definition or_else :: "ustring option \<Rightarrow> ustring \<Rightarrow> ustring" where
  "or_else a b = (case a of None \<Rightarrow> b | Some x \<Rightarrow> if x = [] then b else x)"

text \<open>The search text of a record and its word list, computed afresh.\<close>

definition compute_search_text :: "host \<Rightarrow> DownloadType \<Rightarrow> search_entry" where
  "compute_search_text H item =
     (let title' = or_else (titleNormalized item) (normalizeText H (Some (title item)));
          source' = or_else (sourceNormalized item)
                      (case source item of None \<Rightarrow> [] | Some s \<Rightarrow> if s = [] then [] else normalizeText H (Some s));
          combined = trim (replace_runs js_space [32] (title' @ [32] @ source'));
          searchText = [32] @ combined @ [32];
          words = (if combined = [] then [] else split_by (\<lambda>c. c = 32) combined)
      in (searchText, words))"




text \<open>
  \<^verbatim>\<open>new RegExp(`\\b${term}\\b`, 'i').test(searchText)\<close>. The term is put into the
  pattern as it is; the model is for terms without regular-expression operators
  (\<open>regex_literal\<close>: none of \<^verbatim>\<open>\ ^ $ . | ? * + ( ) [ ] { }\<close>), which the pattern
  matches character by character up to case.
  \<open>prev\<close> is the character before the position tried, if any; a word boundary lies
  between two positions of which exactly one holds a word character.
\<close>

definition regex_operators :: "nat list" where
  "regex_operators = [92, 94, 36, 46, 124, 63, 42, 43, 40, 41, 91, 93, 123, 125]"

definition regex_literal :: "ustring \<Rightarrow> bool" where
  "regex_literal t \<longleftrightarrow> (\<forall>c \<in> set t. c \<notin> set regex_operators)"

definition is_word :: "nat option \<Rightarrow> bool" where
  "is_word c = (case c of None \<Rightarrow> False | Some x \<Rightarrow> js_word x)"

definition boundary :: "nat option \<Rightarrow> nat option \<Rightarrow> bool" where
  "boundary a b \<longleftrightarrow> is_word a \<noteq> is_word b"

fun head_opt :: "ustring \<Rightarrow> nat option" where
  "head_opt [] = None"
| "head_opt (c # cs) = Some c"

text \<open>The term matches at the start of \<open>s\<close> up to case; the result is what follows it.\<close>

fun match_term :: "host \<Rightarrow> ustring \<Rightarrow> ustring \<Rightarrow> (nat option \<times> ustring) option" where
  "match_term H s [] = Some (None, s)"
| "match_term H [] (p # ps) = None"
| "match_term H (c # cs) (p # ps) =
     (if canonicalize H c = canonicalize H p
      then (case match_term H cs ps of
              None \<Rightarrow> None
            | Some (l, rest) \<Rightarrow> Some (if ps = [] then Some c else l, rest))
      else None)"

definition match_here :: "host \<Rightarrow> nat option \<Rightarrow> ustring \<Rightarrow> ustring \<Rightarrow> bool" where
  "match_here H prev s t =
     (case match_term H s t of
        None \<Rightarrow> False
      | Some (l, rest) \<Rightarrow>
          boundary prev (head_opt s)
          \<and> boundary (if t = [] then prev else l) (head_opt rest))"

fun word_match_from :: "host \<Rightarrow> nat option \<Rightarrow> ustring \<Rightarrow> ustring \<Rightarrow> bool" where
  "word_match_from H prev [] t = match_here H prev [] t"
| "word_match_from H prev (c # cs) t =
     (match_here H prev (c # cs) t \<or> word_match_from H (Some c) cs t)"

definition word_boundary_test :: "host \<Rightarrow> ustring \<Rightarrow> ustring \<Rightarrow> bool" where
  "word_boundary_test H t searchText = word_match_from H None searchText t"

text \<open>
  \<^verbatim>\<open>scoreForTerm\<close>, a closure over the search text and the words of the record.
  The ratio of the two lengths is compared as an exact rational; for lengths of strings
  the comparison of the doubles gives the same answer.
\<close>

definition scoreForTerm :: "host \<Rightarrow> ustring \<Rightarrow> ustring list \<Rightarrow> ustring \<Rightarrow> int" where
  "scoreForTerm H searchText ws t =
     (if length t < 3 then (if word_boundary_test H t searchText then 40 else 0)
      else if includes_str searchText t then
        (if word_boundary_test H t searchText then 100
         else if list_ex (\<lambda>w. startsWith w t) ws then 75
         else (case find (\<lambda>w. includes_str w t \<and> w \<noteq> t) ws of
                 Some substringWord \<Rightarrow>
                   (let ratio = (of_nat (length t) :: rat) / of_nat (length substringWord)
                    in if ratio > 6 / 10 then 60 else if ratio > 4 / 10 then 45 else 25)
               | None \<Rightarrow> 15))
      else 0)"

text \<open>
  A whole-word match as the specification describes it, by positions: somewhere the text
  reads the term, up to the case folding of the host, with a word boundary before it and
  a word boundary after it. There is a word boundary at a position when exactly one of
  the two characters next to it is a word character.
\<close>

definition char_at :: "ustring \<Rightarrow> nat \<Rightarrow> nat option" where
  "char_at s i = (if i < length s then Some (s ! i) else None)"

definition word_boundary_at :: "ustring \<Rightarrow> nat \<Rightarrow> bool" where
  "word_boundary_at s p \<longleftrightarrow>
     is_word (if p = 0 then None else char_at s (p - 1)) \<noteq> is_word (char_at s p)"

definition occurs_at :: "host \<Rightarrow> ustring \<Rightarrow> ustring \<Rightarrow> nat \<Rightarrow> bool" where
  "occurs_at H t s i \<longleftrightarrow>
     i + length t \<le> length s
     \<and> map (canonicalize H) (take (length t) (drop i s)) = map (canonicalize H) t"

definition whole_word :: "host \<Rightarrow> ustring \<Rightarrow> ustring \<Rightarrow> bool" where
  "whole_word H t s \<longleftrightarrow>
     list_ex (\<lambda>i. occurs_at H t s i \<and> word_boundary_at s i \<and> word_boundary_at s (i + length t))
       [0..<Suc (length s)]"

text \<open>
  The tiers as the specification lists them, one after the other: a whole-word match is
  a match of the word-boundary pattern, and a term that is exactly 40% of the word that
  contains it is between 40% and 60%.
\<close>

definition spec_score :: "host \<Rightarrow> ustring \<Rightarrow> ustring list \<Rightarrow> ustring \<Rightarrow> int" where
  "spec_score H searchText ws t =
     (if length t < 3 then (if whole_word H t searchText then 40 else 0)
      else if whole_word H t searchText then 100
      else if list_ex (\<lambda>w. startsWith w t) ws then 75
      else (case find (\<lambda>w. w \<noteq> t \<and> includes_str w t) ws of
              Some w \<Rightarrow>
                if 100 * length t > 60 * length w then 60
                else if 100 * length t \<ge> 40 * length w then 45
                else 25
            | None \<Rightarrow> if includes_str searchText t then 15 else 0))"

text \<open>
  The tiers with the two changes the code calls for: a term of three characters or more
  is a whole-word match only when the text also contains the term as it is written, and
  the middle tier starts above 40%.
\<close>

definition tier_score :: "host \<Rightarrow> ustring \<Rightarrow> ustring list \<Rightarrow> ustring \<Rightarrow> int" where
  "tier_score H searchText ws t =
     (if length t < 3 then (if whole_word H t searchText then 40 else 0)
      else if includes_str searchText t \<and> whole_word H t searchText then 100
      else if list_ex (\<lambda>w. startsWith w t) ws then 75
      else (case find (\<lambda>w. w \<noteq> t \<and> includes_str w t) ws of
              Some w \<Rightarrow>
                if 100 * length t > 60 * length w then 60
                else if 100 * length t > 40 * length w then 45
                else 25
            | None \<Rightarrow> if includes_str searchText t then 15 else 0))"

text \<open>
  The ASCII host extended by two letters that the case folding of a regular expression
  identifies: the micro sign (U+00B5) and the Greek small letter mu (U+03BC), both of which
  have the capital letter mu (U+039C) as their upper case. Both are lower-case letters
  without a decomposition.
\<close>

definition mu_host :: host where
  "mu_host =
     ascii_host\<lparr>isLetter := (\<lambda>c. isLetter ascii_host c \<or> c = 181 \<or> c = 956),
                canonicalize := (\<lambda>c. if c = 181 \<or> c = 956 then 924 else ascii_upper c)\<rparr>"


















text \<open>
  The original search terms of a query as the specification describes them: the words of
  the normalised query without its quoted phrases, without the stopwords unless every
  word is a stopword.
\<close>

definition spec_terms :: "host \<Rightarrow> ustring \<Rightarrow> ustring list" where
  "spec_terms H q =
     (let ws = split_ws (normalizeText H (Some (snd (extractExactPhrases q))))
      in if list_all (\<lambda>w. w \<in> set DEFAULT_STOPWORDS) ws then ws
         else filter (\<lambda>w. w \<notin> set DEFAULT_STOPWORDS) ws)"






section \<open>Facts about string literals\<close>

lemma u_eq_iff: "u a = u b \<longleftrightarrow> a = b"
  unfolding u_def by (simp add: inj_map_eq_map inj_on_def)

lemma u_Nil_iff: "u a = [] \<longleftrightarrow> a = []" "[] = u a \<longleftrightarrow> a = []"
  unfolding u_def by auto

lemma u_append: "u a @ u b = u (a @ b)"
  by (simp add: u_def)

section \<open>Properties of the LRU cache\<close>







lemma map_of_delete_other: "k' \<noteq> e \<Longrightarrow> map_of (AList.delete e m) k' = map_of m k'"
  by (simp add: AList.delete_conv')








section \<open>Properties of text normalisation\<close>

lemma replace_runs_id: "\<forall>c \<in> set s. \<not> P c \<Longrightarrow> replace_runs P r s = s"
  by (induction s) auto

lemma set_replace_runs: "set (replace_runs P r s) \<subseteq> {c \<in> set s. \<not> P c} \<union> set r"
proof (induction P r s rule: replace_runs.induct)
  case (1 P r)
  then show ?case by simp
next
  case (2 P r c cs)
  show ?case
  proof (cases "P c")
    case True
    have "set (dropWhile P cs) \<subseteq> set cs" by (rule set_dropWhileD[THEN subsetI]) 
    with 2(1)[OF True] True show ?thesis by auto
  next
    case False
    with 2(2)[OF False] show ?thesis by auto
  qed
qed

lemma js_space_32: "js_space 32" by (simp add: js_space_def)

lemma single_spaced_Cons:
  "single_spaced (c # cs) \<longleftrightarrow> (js_space c \<longrightarrow> c = 32 \<and> (cs = [] \<or> \<not> js_space (hd cs))) \<and> single_spaced cs"
  by (cases cs) auto

lemma hd_replace_runs_nonspace:
  "s \<noteq> [] \<Longrightarrow> \<not> js_space (hd s) \<Longrightarrow> replace_runs js_space [32] s \<noteq> [] \<and> \<not> js_space (hd (replace_runs js_space [32] s))"
  by (cases s) auto

lemma dropWhile_hd: "dropWhile P s \<noteq> [] \<Longrightarrow> \<not> P (hd (dropWhile P s))"
  by (metis hd_dropWhile)

lemma single_spaced_replace_runs: "single_spaced (replace_runs js_space [32] s)"
proof (induction "js_space" "[32::nat]" s rule: replace_runs.induct)
  case 1
  then show ?case by simp
next
  case (2 c cs)
  show ?case
  proof (cases "js_space c")
    case True
    define d where "d = dropWhile js_space cs"
    have ss: "single_spaced (replace_runs js_space [32] d)" using 2(1)[OF True] by (simp add: d_def)
    have "replace_runs js_space [32] d = [] \<or> \<not> js_space (hd (replace_runs js_space [32] d))"
    proof (cases "d = []")
      case True then show ?thesis by simp
    next
      case False
      then have "\<not> js_space (hd d)" unfolding d_def by (rule dropWhile_hd)
      with False show ?thesis using hd_replace_runs_nonspace by blast
    qed
    with ss True show ?thesis by (simp add: single_spaced_Cons d_def[symmetric])
  next
    case False
    with 2(2)[OF False] show ?thesis by (simp add: single_spaced_Cons)
  qed
qed

lemma single_spaced_fixed: "single_spaced s \<Longrightarrow> replace_runs js_space [32] s = s"
proof (induction s rule: single_spaced.induct)
  case 1
  then show ?case by simp
next
  case (2 c)
  then show ?case by simp
next
  case (3 c d cs)
  then show ?case by auto
qed

lemma single_spaced_append: "single_spaced (xs @ ys) \<Longrightarrow> single_spaced xs \<and> single_spaced ys"
proof (induction xs rule: single_spaced.induct)
  case 1
  then show ?case by simp
next
  case (2 c)
  then show ?case by (cases ys) auto
next
  case (3 c d cs)
  then show ?case by auto
qed

lemma single_spaced_trim: "single_spaced s \<Longrightarrow> single_spaced (trim s)"
proof -
  assume a: "single_spaced s"
  let ?x = "dropWhile js_space s"
  have "s = takeWhile js_space s @ ?x" by simp
  with a have x: "single_spaced ?x" by (metis single_spaced_append)
  have "?x = rev (dropWhile js_space (rev ?x)) @ rev (takeWhile js_space (rev ?x))"
    by (metis rev_append rev_rev_ident takeWhile_dropWhile_id)
  with x have "single_spaced (rev (dropWhile js_space (rev ?x)))" by (metis single_spaced_append)
  then show ?thesis by (simp add: trim_def)
qed

lemma trim_fixed:
  "trim (trim s) = trim s"
proof -
  define x where "x = dropWhile js_space s"
  define t where "t = rev (dropWhile js_space (rev x))"
  have t: "trim s = t" by (simp add: trim_def t_def x_def)
  have x_split: "x = t @ rev (takeWhile js_space (rev x))"
    unfolding t_def by (metis rev_append rev_rev_ident takeWhile_dropWhile_id)
  have front: "dropWhile js_space t = t"
  proof (cases "t = []")
    case True then show ?thesis by simp
  next
    case False
    then have xne: "x \<noteq> []" using x_split by auto
    have "hd t = hd x" using False x_split by (metis hd_append2)
    moreover have "\<not> js_space (hd x)" using xne unfolding x_def by (rule dropWhile_hd)
    ultimately show ?thesis using False by (simp add: dropWhile_eq_self_iff)
  qed
  have rear: "dropWhile js_space (rev t) = rev t" by (simp add: t_def)
  show ?thesis unfolding t using front rear by (simp add: trim_def)
qed

lemma set_trim: "set (trim s) \<subseteq> set s"
proof -
  have "set (trim s) = set (dropWhile js_space (rev (dropWhile js_space s)))" by (simp add: trim_def)
  also have "\<dots> \<subseteq> set (rev (dropWhile js_space s))" by (meson set_dropWhileD subsetI)
  also have "\<dots> \<subseteq> set s" by (auto dest: set_dropWhileD)
  finally show ?thesis .
qed

lemma normalizeText_chars:
  assumes "t \<noteq> []" "c \<in> set (normalizeText H (Some t))"
  shows "c = 32 \<or> ((isLetter H c \<or> isNumber H c) \<and> \<not> js_space c \<and> \<not> isSeparator c
           \<and> \<not> isCombining c \<and> c \<in> set (nfd H (toLowerCase H t)))"
proof -
  define s2 where "s2 = nfd H (toLowerCase H t)"
  define s3 where "s3 = filter (\<lambda>c. \<not> isCombining c) s2"
  define s4 where "s4 = replace_runs isSeparator [32] s3"
  define s5 where "s5 = filter (\<lambda>c. isLetter H c \<or> isNumber H c \<or> js_space c) s4"
  define s6 where "s6 = replace_runs js_space [32] s5"
  have y: "normalizeText H (Some t) = trim s6"
    using assms(1) by (simp add: normalizeText_def Let_def s6_def s5_def s4_def s3_def s2_def)
  have "c \<in> set s6" using assms(2) set_trim unfolding y by blast
  then have c6: "c = 32 \<or> (c \<in> set s5 \<and> \<not> js_space c)"
    using set_replace_runs[of js_space "[32]" s5] unfolding s6_def by auto
  show ?thesis
  proof (cases "c = 32")
    case True then show ?thesis by simp
  next
    case False
    with c6 have c5: "c \<in> set s5" and ns: "\<not> js_space c" by auto
    then have c4: "c \<in> set s4" and k: "isLetter H c \<or> isNumber H c" by (auto simp: s5_def)
    from c4 False have c3: "c \<in> set s3" and nsep: "\<not> isSeparator c"
      using set_replace_runs[of isSeparator "[32]" s3] unfolding s4_def by auto
    then have "c \<in> set s2" and "\<not> isCombining c" by (auto simp: s3_def)
    with k ns nsep show ?thesis by (simp add: s2_def)
  qed
qed

lemma normalizeText_shape:
  "single_spaced (normalizeText H x) \<and> trim (normalizeText H x) = normalizeText H x"
proof (cases x)
  case None
  then show ?thesis by (simp add: normalizeText_def trim_def)
next
  case (Some t)
  then show ?thesis
    by (simp add: normalizeText_def Let_def trim_fixed single_spaced_trim single_spaced_replace_runs trim_def[of "[]"])
qed

lemma normalizeText_fixed:
  assumes st: "unicode_stable H"
  shows "normalizeText H (Some (normalizeText H x)) = normalizeText H x"
proof -
  define y where "y = normalizeText H x"
  show ?thesis
  proof (cases "y = []")
    case True
    have "normalizeText H (Some []) = []" by (simp add: normalizeText_def)
    then have "normalizeText H (Some y) = y" using True by simp
    then show ?thesis by (simp only: y_def)
  next
    case False
    then obtain t where x: "x = Some t" and t: "t \<noteq> []"
      by (cases x) (auto simp: y_def normalizeText_def split: if_splits)
    have chars: "\<forall>c \<in> set y. c = 32 \<or> ((isLetter H c \<or> isNumber H c) \<and> \<not> js_space c \<and> \<not> isSeparator c
           \<and> \<not> isCombining c \<and> c \<in> set (nfd H (toLowerCase H t)))"
      using normalizeText_chars[OF t] unfolding y_def x by blast
    then have "\<forall>c \<in> set y. c = 32 \<or> ((isLetter H c \<or> isNumber H c) \<and> c \<in> set (nfd H (toLowerCase H t)))"
      by blast
    with st have low: "toLowerCase H y = y" and dec: "nfd H y = y"
      unfolding unicode_stable_def by blast+
    have nc: "filter (\<lambda>c. \<not> isCombining c) y = y"
      using chars by (auto simp: filter_id_conv isCombining_def)
    have nsep: "replace_runs isSeparator [32] y = y"
      using chars by (intro replace_runs_id) (auto simp: isSeparator_def)
    have kept: "filter (\<lambda>c. isLetter H c \<or> isNumber H c \<or> js_space c) y = y"
      using chars by (auto simp: filter_id_conv js_space_32)
    have ss: "replace_runs js_space [32] y = y" and tr: "trim y = y"
      using normalizeText_shape[of H x] single_spaced_fixed unfolding y_def by auto
    have "normalizeText H (Some y) = y"
      using False by (simp add: normalizeText_def Let_def low dec nc nsep kept ss tr)
    then show ?thesis by (simp only: y_def)
  qed
qed

lemma ascii_host_stable: "unicode_stable ascii_host"
proof -
  have "map ascii_lower w = w"
    if "\<forall>c \<in> set w. c = 32 \<or> c \<in> set (map ascii_lower s)" for s w :: ustring
  proof -
    have "ascii_lower c = c" if "c \<in> set w" for c
      using that \<open>\<forall>c \<in> set w. c = 32 \<or> c \<in> set (map ascii_lower s)\<close>
      by (auto simp: ascii_lower_def)
    then show ?thesis by (simp add: map_idI)
  qed
  then show ?thesis
    unfolding unicode_stable_def ascii_host_def by (simp add: ) blast
qed

lemmas norm_eval = normalizeText_def u_def ascii_host_def ascii_lower_def isCombining_def
  isSeparator_def js_space_def js_digit_def trim_def

text \<open>
  Claim C6. \<open>normalizeText\<close> is idempotent: normalising a normalised string changes
  nothing, for every string and for the absent argument, on every host whose Unicode
  tables are stable in the sense of \<open>unicode_stable\<close>; and an absent or empty
  argument gives the empty string.
\<close>

theorem normalizeText_idempotent:
  assumes "unicode_stable H"
  shows "normalizeText H (Some (normalizeText H x)) = normalizeText H x
    \<and> normalizeText H None = [] \<and> normalizeText H (Some []) = []"
proof -
  have "normalizeText H None = []" and "normalizeText H (Some []) = []"
    by (simp_all add: normalizeText_def)
  with normalizeText_fixed[OF assms, of x] show ?thesis by simp
qed

theorem normalizeText_idempotent_witness:
  "unicode_stable ascii_host
   \<and> normalizeText ascii_host (Some (u ''The-Witcher_3'')) = u ''the witcher 3''
   \<and> normalizeText ascii_host (Some (u ''the witcher 3'')) = u ''the witcher 3''"
proof -
  have e: "normalizeText ascii_host (Some (u ''The-Witcher_3'')) = u ''the witcher 3''"
    by (simp add: norm_eval)
  have "normalizeText ascii_host (Some (normalizeText ascii_host (Some (u ''The-Witcher_3''))))
      = normalizeText ascii_host (Some (u ''The-Witcher_3''))"
    using normalizeText_idempotent[OF ascii_host_stable, of "Some (u ''The-Witcher_3'')"] by blast
  then have "normalizeText ascii_host (Some (u ''the witcher 3'')) = u ''the witcher 3''"
    by (simp only: e)
  with e ascii_host_stable show ?thesis by blast
qed

section \<open>Properties of the file-size parsers\<close>

lemmas size_eval = parseFileSize_def store_parseFileSize_def match_number_def parseFloat_def
  digits_value_def isNumChar_def js_digit_def num_times_def Math_round_def u_def

text \<open>
  Claim C10, as amended. For every size string the data store's parser returns the search
  engine's result rounded to the nearest integer (\<^verbatim>\<open>Math.round\<close>); for the absent
  argument, which only the data store's parser accepts, it returns 0.
\<close>

theorem store_parseFileSize_rounds:
  "store_parseFileSize (Some s) = Math_round (parseFileSize s) \<and> store_parseFileSize None = Num 0"
proof -
  have "\<lfloor>(1::rat) / 2\<rfloor> = 0" by (simp add: floor_eq_iff)
  then have z: "Math_round (Num 0) = Num 0" by (simp add: Math_round_def)
  show ?thesis
    by (simp add: store_parseFileSize_def parseFileSize_def Let_def z split: option.splits)
qed

text \<open>
  The claim as stated fails on the string \<^verbatim>\<open>"1.5"\<close>: the search engine returns 1.5 and
  the data store 2. With a unit the two agree on \<^verbatim>\<open>"1.5 KB"\<close>, both giving 1536.
\<close>

theorem parseFileSize_differ_counterexample:
  "parseFileSize (u ''1.5'') = Num (3 / 2) \<and> store_parseFileSize (Some (u ''1.5'')) = Num 2
   \<and> parseFileSize (u ''1.5'') \<noteq> store_parseFileSize (Some (u ''1.5''))"
  by (simp add: size_eval)

section \<open>Properties of synonym expansion\<close>

lemmas syn_eval = expandSearchTermsWithSynonyms_def SYNONYMS_lookup_def reverse_synonyms_def
  set_add_all_def set_add_def SYNONYMS_MAP_def object_prototype_keys_def u_eq_iff

lemma set_add_props:
  "set (set_add xs x) = insert x (set xs)" "distinct xs \<Longrightarrow> distinct (set_add xs x)"
  by (auto simp: set_add_def)

lemma set_add_all_props:
  "set (set_add_all xs ys) = set xs \<union> set ys" "distinct xs \<Longrightarrow> distinct (set_add_all xs ys)"
  unfolding set_add_all_def
  by (induction ys arbitrary: xs) (auto simp: set_add_props)

lemma reverse_fold_props:
  "set acc \<subseteq> set (fold (\<lambda>(key, synonyms) acc.
       if term \<in> set synonyms then set_add_all (set_add acc key) synonyms else acc) tab acc)"
  "distinct acc \<Longrightarrow> distinct (fold (\<lambda>(key, synonyms) acc.
       if term \<in> set synonyms then set_add_all (set_add acc key) synonyms else acc) tab acc)"
proof (induction tab arbitrary: acc)
  case Nil
  { case 1 show ?case by simp }
  { case 2 then show ?case by simp }
next
  case (Cons e tab)
  obtain key synonyms where e: "e = (key, synonyms)" by (cases e)
  { case 1
    show ?case
      using Cons.IH(1)[of "set_add_all (set_add acc key) synonyms"] Cons.IH(1)[of acc]
      by (auto simp: e set_add_all_props set_add_props) }
  { case 2
    then show ?case
      using Cons.IH(2)[of "set_add_all (set_add acc key) synonyms"] Cons.IH(2)[of acc]
      by (auto simp: e set_add_all_props set_add_props) }
qed

lemma reverse_synonyms_props:
  "set acc \<subseteq> set (reverse_synonyms term acc)"
  "distinct acc \<Longrightarrow> distinct (reverse_synonyms term acc)"
  unfolding reverse_synonyms_def by (simp_all add: reverse_fold_props)

lemma expand_loop_props:
  "expand_loop terms expanded = Inr out \<Longrightarrow> distinct expanded
     \<Longrightarrow> distinct out \<and> set expanded \<subseteq> set out"
proof (induction terms arbitrary: expanded)
  case Nil
  then show ?case by simp
next
  case (Cons tm rest)
  show ?case
  proof (cases "SYNONYMS_lookup tm")
    case Absent
    with Cons.prems have run: "expand_loop rest (reverse_synonyms tm expanded) = Inr out" by simp
    have "distinct (reverse_synonyms tm expanded)"
      using Cons.prems(2) by (rule reverse_synonyms_props)
    from Cons.IH[OF run this] reverse_synonyms_props(1)[of expanded tm]
    show ?thesis by blast
  next
    case (Synonyms syns)
    with Cons.prems
    have run: "expand_loop rest (reverse_synonyms tm (set_add_all expanded syns)) = Inr out" by simp
    have "distinct (reverse_synonyms tm (set_add_all expanded syns))"
      using Cons.prems(2) by (intro reverse_synonyms_props set_add_all_props)
    from Cons.IH[OF run this] reverse_synonyms_props(1)[of "set_add_all expanded syns" tm]
    show ?thesis by (auto simp: set_add_all_props)
  next
    case Inherited
    with Cons.prems show ?thesis by simp
  qed
qed

text \<open>
  Claim C5, as amended. Whenever \<open>expandSearchTermsWithSynonyms\<close> returns, its output has
  no duplicate term and contains every input term. (It is not idempotent: a second
  application can add the synonyms of the terms the first one added.)
\<close>

theorem expand_distinct_extensive:
  "expandSearchTermsWithSynonyms terms = Inr out \<Longrightarrow> distinct out \<and> set terms \<subseteq> set out"
proof -
  assume run: "expandSearchTermsWithSynonyms terms = Inr out"
  have d: "distinct (set_add_all [] terms)" by (simp add: set_add_all_props)
  from expand_loop_props[OF run[unfolded expandSearchTermsWithSynonyms_def] d]
  show ?thesis by (simp add: set_add_all_props)
qed

lemma expand_epic:
  "expandSearchTermsWithSynonyms [u ''epic''] = Inr [u ''epic'', u ''epic games'', u ''launcher'']"
  by (simp add: syn_eval)

theorem expand_distinct_extensive_witness:
  "expandSearchTermsWithSynonyms [u ''epic''] = Inr [u ''epic'', u ''epic games'', u ''launcher'']
   \<and> distinct [u ''epic'', u ''epic games'', u ''launcher'']
   \<and> set [u ''epic''] \<subseteq> set [u ''epic'', u ''epic games'', u ''launcher'']"
  using expand_distinct_extensive[OF expand_epic] expand_epic by blast

text \<open>
  The claim as stated fails on the term list \<^verbatim>\<open>["epic"]\<close>: the first expansion adds
  \<^verbatim>\<open>"epic games"\<close> and \<^verbatim>\<open>"launcher"\<close>; expanding that output adds the synonyms of
  \<^verbatim>\<open>"launcher"\<close>, so the two sets of terms differ.
\<close>

theorem expand_idempotent_counterexample:
  "expandSearchTermsWithSynonyms [u ''epic''] = Inr [u ''epic'', u ''epic games'', u ''launcher'']
   \<and> expandSearchTermsWithSynonyms [u ''epic'', u ''epic games'', u ''launcher'']
       = Inr [u ''epic'', u ''epic games'', u ''launcher'', u ''loader'', u ''boot'', u ''executor'']
   \<and> set [u ''epic'', u ''epic games'', u ''launcher'', u ''loader'', u ''boot'', u ''executor'']
       \<noteq> set [u ''epic'', u ''epic games'', u ''launcher'']"
proof -
  have "expandSearchTermsWithSynonyms [u ''epic'', u ''epic games'', u ''launcher'']
       = Inr [u ''epic'', u ''epic games'', u ''launcher'', u ''loader'', u ''boot'', u ''executor'']"
    by (simp add: syn_eval)
  moreover have "u ''loader'' \<notin> set [u ''epic'', u ''epic games'', u ''launcher'']"
    by (simp add: u_eq_iff)
  ultimately show ?thesis using expand_epic by auto
qed

text \<open>Expanding the inherited property name \<^verbatim>\<open>"constructor"\<close> throws.\<close>

lemma expand_constructor_throws:
  "expandSearchTermsWithSynonyms [u ''constructor''] = Inl TypeError"
  by (simp add: syn_eval)

section \<open>Properties of de-duplication\<close>

lemma keep_new_first_occurrences:
  "keep_new f seen xs = first_occurrences f (filter (\<lambda>x. f x \<notin> set seen) xs)"
proof (induction xs arbitrary: seen)
  case Nil
  then show ?case by simp
next
  case (Cons x xs)
  have "filter (\<lambda>y. f y \<noteq> f x) (filter (\<lambda>y. f y \<notin> set seen) xs)
      = filter (\<lambda>y. f y \<notin> set (f x # seen)) xs"
    by (induction xs) auto
  then show ?case using Cons.IH[of "f x # seen"] Cons.IH[of seen] by (auto simp: conj_commute)
qed

lemma first_occurrences_cong:
  "(\<And>x y. x \<in> set xs \<Longrightarrow> y \<in> set xs \<Longrightarrow> (f x = f y) = (g x = g y))
     \<Longrightarrow> first_occurrences f xs = first_occurrences g xs"
proof (induction f xs rule: first_occurrences.induct)
  case (1 f)
  then show ?case by simp
next
  case (2 f x xs)
  have eq: "filter (\<lambda>y. f y \<noteq> f x) xs = filter (\<lambda>y. g y \<noteq> g x) xs"
    using 2(2) by (intro filter_cong) auto
  have "first_occurrences f (filter (\<lambda>y. f y \<noteq> f x) xs)
      = first_occurrences g (filter (\<lambda>y. f y \<noteq> f x) xs)"
    by (rule 2(1)) (use 2(2) in auto)
  then show ?case by (simp add: eq)
qed

lemma keep_new_append:
  "keep_new f seen (xs @ ys) = keep_new f seen xs @ keep_new f (rev (map f (keep_new f seen xs)) @ seen) ys"
  by (induction xs arbitrary: seen) auto

lemma filter_downloads_keep_new:
  "filter_downloads processed dls
     = (keep_new dedup_key processed (filter (\<lambda>dl. \<not> invalid_title dl) dls),
        rev (map dedup_key (keep_new dedup_key processed (filter (\<lambda>dl. \<not> invalid_title dl) dls))) @ processed)"
  by (induction dls arbitrary: processed) auto


lemma keep_new_map: "keep_new f seen (map h xs) = map h (keep_new (\<lambda>x. f (h x)) seen xs)"
  by (induction xs arbitrary: seen) auto

lemma dedup_gogs_keep_new:
  "dedup_gogs processed gogs
     = map (\<lambda>(n, dl). stamp n dl)
         (keep_new (\<lambda>(n, dl). dedup_key dl) processed
            (filter (\<lambda>(n, dl). \<not> invalid_title dl)
               (flatten_gogs (filter (\<lambda>gog. name gog \<noteq> []) gogs))))"
proof (induction gogs arbitrary: processed)
  case Nil
  then show ?case by (simp add: flatten_gogs_def)
next
  case (Cons gog gogs)
  show ?case
  proof (cases "name gog = []")
    case True
    then show ?thesis using Cons.IH by simp
  next
    case False
    define ks where "ks = keep_new dedup_key processed (filter (\<lambda>dl. \<not> invalid_title dl) (downloads gog))"
    have fl: "flatten_gogs (gog # filter (\<lambda>gog. name gog \<noteq> []) gogs)
        = map (Pair (name gog)) (downloads gog) @ flatten_gogs (filter (\<lambda>gog. name gog \<noteq> []) gogs)"
      by (simp add: flatten_gogs_def)
    have head: "keep_new (\<lambda>(n, dl). dedup_key dl) processed
          (filter (\<lambda>(n, dl). \<not> invalid_title dl) (map (Pair (name gog)) (downloads gog)))
        = map (Pair (name gog)) ks"
      by (simp add: filter_map comp_def keep_new_map ks_def)
    have keys: "map (\<lambda>(n, dl). dedup_key dl) (map (Pair (name gog)) ks) = map dedup_key ks"
      by simp
    have st: "map (\<lambda>(n, dl). stamp n dl) (map (Pair (name gog)) ks) = map (stamp (name gog)) ks"
      by simp
    show ?thesis
      using False Cons.IH[of "rev (map dedup_key ks) @ processed"]
      by (simp add: filter_downloads_keep_new ks_def[symmetric] fl keep_new_append head keys st
          del: map_map)
  qed
qed

text \<open>
  Claim C4, as amended. \<open>processAndDeduplicateDownloads\<close> skips the catalogs whose name
  is empty; of the others it flattens the download lists, drops every record whose title
  is empty, white space only or the sentinel, keeps only the first occurrence of each
  (title, uploadDate) pair across all catalogs, and stamps every survivor with the name
  of its catalog as its source and with its parsed byte size. This is proved for inputs
  on which distinct (title, uploadDate) pairs have distinct \<^verbatim>\<open>title:uploadDate\<close> keys.
\<close>

theorem dedup_refines_spec:
  assumes "\<forall>x \<in> set (flatten_gogs (filter (\<lambda>gog. name gog \<noteq> []) gogs)).
           \<forall>y \<in> set (flatten_gogs (filter (\<lambda>gog. name gog \<noteq> []) gogs)).
             \<not> invalid_title (snd x) \<and> \<not> invalid_title (snd y) \<and> dedup_key (snd x) = dedup_key (snd y)
             \<longrightarrow> title (snd x) = title (snd y) \<and> uploadDate (snd x) = uploadDate (snd y)"
  shows "processAndDeduplicateDownloads gogs = spec_deduplicate (filter (\<lambda>gog. name gog \<noteq> []) gogs)"
proof -
  define xs where "xs = filter (\<lambda>(n, dl). \<not> invalid_title dl)
      (flatten_gogs (filter (\<lambda>gog. name gog \<noteq> []) gogs))"
  have "first_occurrences (\<lambda>(n, dl). dedup_key dl) xs
      = first_occurrences (\<lambda>(n, dl). (title dl, uploadDate dl)) xs"
  proof (rule first_occurrences_cong)
    fix x y assume x: "x \<in> set xs" and y: "y \<in> set xs"
    let ?F = "flatten_gogs (filter (\<lambda>gog. name gog \<noteq> []) gogs)"
    have mx: "x \<in> set ?F \<and> \<not> invalid_title (snd x)"
      using x unfolding xs_def by (simp add: case_prod_beta)
    have my: "y \<in> set ?F \<and> \<not> invalid_title (snd y)"
      using y unfolding xs_def by (simp add: case_prod_beta)
    have fwd: "dedup_key (snd x) = dedup_key (snd y)
        \<longrightarrow> title (snd x) = title (snd y) \<and> uploadDate (snd x) = uploadDate (snd y)"
      using assms mx my by blast
    have bwd: "title (snd x) = title (snd y) \<and> uploadDate (snd x) = uploadDate (snd y)
        \<longrightarrow> dedup_key (snd x) = dedup_key (snd y)"
      by (simp add: dedup_key_def)
    show "((case x of (n, dl) \<Rightarrow> dedup_key dl) = (case y of (n, dl) \<Rightarrow> dedup_key dl))
        = ((case x of (n, dl) \<Rightarrow> (title dl, uploadDate dl)) = (case y of (n, dl) \<Rightarrow> (title dl, uploadDate dl)))"
      unfolding case_prod_beta prod.inject using fwd bwd by blast
  qed
  then show ?thesis
    by (simp add: processAndDeduplicateDownloads_def spec_deduplicate_def dedup_gogs_keep_new
        keep_new_first_occurrences xs_def)
qed

lemmas dedup_eval = spec_deduplicate_def flatten_gogs_def invalid_title_def dedup_key_def
  raw_download_def trim_def js_space_def

theorem dedup_refines_spec_witness:
  "processAndDeduplicateDownloads
     [\<lparr>name = u ''A'', downloads = [raw_download 0 (u ''Game'') (u ''1 KB'') (u ''d1''),
                                     raw_download 1 (u '' '') (u ''1 KB'') (u ''d1''),
                                     raw_download 2 (u ''Wkeynhk'') (u ''1 KB'') (u ''d1'')]\<rparr>,
      \<lparr>name = u ''B'', downloads = [raw_download 3 (u ''Game'') (u ''2 KB'') (u ''d1''),
                                     raw_download 4 (u ''Other'') (u ''N/A'') (u ''d1'')]\<rparr>]
   = [stamp (u ''A'') (raw_download 0 (u ''Game'') (u ''1 KB'') (u ''d1'')),
      stamp (u ''B'') (raw_download 4 (u ''Other'') (u ''N/A'') (u ''d1''))]"
proof -
  let ?gogs = "[\<lparr>name = u ''A'', downloads = [raw_download 0 (u ''Game'') (u ''1 KB'') (u ''d1''),
                                     raw_download 1 (u '' '') (u ''1 KB'') (u ''d1''),
                                     raw_download 2 (u ''Wkeynhk'') (u ''1 KB'') (u ''d1'')]\<rparr>,
      \<lparr>name = u ''B'', downloads = [raw_download 3 (u ''Game'') (u ''2 KB'') (u ''d1''),
                                     raw_download 4 (u ''Other'') (u ''N/A'') (u ''d1'')]\<rparr>]"
  have named: "filter (\<lambda>gog. name gog \<noteq> []) ?gogs = ?gogs"
    by (simp add: u_Nil_iff)
  have hyp: "\<forall>x \<in> set (flatten_gogs (filter (\<lambda>gog. name gog \<noteq> []) ?gogs)).
           \<forall>y \<in> set (flatten_gogs (filter (\<lambda>gog. name gog \<noteq> []) ?gogs)).
             \<not> invalid_title (snd x) \<and> \<not> invalid_title (snd y) \<and> dedup_key (snd x) = dedup_key (snd y)
             \<longrightarrow> title (snd x) = title (snd y) \<and> uploadDate (snd x) = uploadDate (snd y)"
    unfolding named by (simp add: dedup_eval u_append u_eq_iff)
  have "spec_deduplicate ?gogs
      = [stamp (u ''A'') (raw_download 0 (u ''Game'') (u ''1 KB'') (u ''d1'')),
         stamp (u ''B'') (raw_download 4 (u ''Other'') (u ''N/A'') (u ''d1''))]"
    by (simp add: dedup_eval u_eq_iff u_def)
  then show ?thesis using dedup_refines_spec[OF hyp] by (simp only: named)
qed

text \<open>
  The claim as stated fails on a catalog with the empty name: its records are not part of
  the result, whereas the description keeps them, stamped with the empty source.
\<close>

theorem dedup_unnamed_counterexample:
  "processAndDeduplicateDownloads [\<lparr>name = [], downloads = [raw_download 0 (u ''Game'') (u ''1 KB'') (u ''d1'')]\<rparr>] = []
   \<and> spec_deduplicate [\<lparr>name = [], downloads = [raw_download 0 (u ''Game'') (u ''1 KB'') (u ''d1'')]\<rparr>]
       = [stamp [] (raw_download 0 (u ''Game'') (u ''1 KB'') (u ''d1''))]"
  by (simp add: processAndDeduplicateDownloads_def dedup_eval u_eq_iff u_def)

section \<open>Properties of the data store\<close>

lemma merge_catalog_invariant:
  assumes "length (downloads g) \<le> 200" "distinct (map name gs)"
    "\<forall>x \<in> set gs. length (downloads x) \<le> 200"
  shows "length (merge_catalog g gs) \<le> 50 \<and> distinct (map name (merge_catalog g gs))
    \<and> (\<forall>x \<in> set (merge_catalog g gs). length (downloads x) \<le> 200)"
proof -
  define l where "l = filter (\<lambda>x. name x \<noteq> name g) gs @ [g]"
  have d: "distinct (map name l)"
    using assms(2) by (auto simp: l_def distinct_map_filter)
  have b: "\<forall>x \<in> set l. length (downloads x) \<le> 200"
    using assms(1,3) by (auto simp: l_def)
  have m: "merge_catalog g gs = (if length l > 50 then drop (length l - 50) l else l)"
    by (simp add: merge_catalog_def l_def MAX_GOG_SOURCES_def slice_last_def Let_def)
  have dd: "distinct (map name (drop n l))" for n
    using d by (simp add: drop_map[symmetric] distinct_drop del: drop_map)
  have bd: "\<forall>x \<in> set (drop n l). length (downloads x) \<le> 200" for n
    using b by (meson in_set_dropD)
  show ?thesis unfolding m using d b dd bd by auto
qed

lemma normalizeGogData_bound: "length (downloads (normalizeGogData H d)) \<le> 200"
  by (simp add: normalizeGogData_def MAX_DOWNLOADS_PER_SOURCE_def)

lemma prepare_catalog_bound: "length (downloads (prepare_catalog H d su)) \<le> 200"
  using normalizeGogData_bound[of H d] by (simp add: prepare_catalog_def Let_def)

lemma store_step_invariant: "store_invariant st \<Longrightarrow> store_invariant (store_step H st op)"
proof (cases op)
  case (AddGogData now d su)
  assume inv: "store_invariant st"
  show ?thesis
  proof (cases "name d \<in> set (uploadInProgress st)")
    case True
    then show ?thesis using inv AddGogData by (simp add: addGogData_def)
  next
    case False
    have "gogData (addGogData H now st d su) = merge_catalog (prepare_catalog H d su) (gogData st)"
      using False by (simp add: addGogData_def Let_def)
    then show ?thesis
      using merge_catalog_invariant[OF prepare_catalog_bound, of "gogData st" H d su] inv AddGogData
      by (simp add: store_invariant_def)
  qed
next
  case (UploadSettled n r)
  assume "store_invariant st"
  then show ?thesis using UploadSettled by (simp add: store_invariant_def uploadSettled_def)
next
  case (RemoveSource n)
  assume "store_invariant st"
  then show ?thesis using RemoveSource
    by (auto simp: store_invariant_def removeSource_def distinct_map_filter intro: le_trans[OF length_filter_le])
next
  case (LoadSavedSource r)
  assume inv: "store_invariant st"
  show ?thesis
  proof (cases r)
    case None
    then show ?thesis using inv LoadSavedSource by (simp add: loadSavedSource_def)
  next
    case (Some d)
    have pb: "length (downloads (rehydrate_catalog H d)) \<le> 200"
      using normalizeGogData_bound[of H d] by (simp add: rehydrate_catalog_def Let_def)
    have "gogData (loadSavedSource H st r) = merge_catalog (rehydrate_catalog H d) (gogData st)"
      using Some by (simp add: loadSavedSource_def)
    then show ?thesis
      using merge_catalog_invariant[OF pb, of "gogData st"] inv LoadSavedSource
      by (simp add: store_invariant_def)
  qed
qed

lemma foldl_invariant:
  "store_invariant st \<Longrightarrow> store_invariant (foldl (store_step H) st ops)"
  by (induction ops arbitrary: st) (auto simp: store_step_invariant)

lemma prepare_catalog_name: "name (prepare_catalog H d su) = name d"
  by (simp add: prepare_catalog_def normalizeGogData_def Let_def)

lemma merge_catalog_spec:
  assumes "length old \<le> 50"
  shows "merge_catalog p old = spec_add p old"
proof (cases "name p \<in> set (map name old)")
  case True
  then obtain g where "g \<in> set old" "name g = name p" by auto
  then have "length (filter (\<lambda>x. name x \<noteq> name p) old) < length old"
    by (intro length_filter_less[of g]) auto
  then have "length (filter (\<lambda>x. name x \<noteq> name p) old @ [p]) \<le> 50" using assms by simp
  then show ?thesis using True
    by (simp add: merge_catalog_def spec_add_def MAX_GOG_SOURCES_def Let_def)
next
  case False
  have "name x \<noteq> name p" if "x \<in> set old" for x
    using that False by (metis image_eqI list.set_map)
  then have f: "filter (\<lambda>x. name x \<noteq> name p) old = old"
    by (intro filter_True) blast
  show ?thesis
  proof (cases "length old < 50")
    case True
    then show ?thesis using False f
      by (simp add: merge_catalog_def spec_add_def MAX_GOG_SOURCES_def Let_def)
  next
    case full: False
    then have l: "length old = 50" using assms by simp
    then obtain x xs where old: "old = x # xs" by (cases old) auto
    show ?thesis using False full l
      unfolding merge_catalog_def spec_add_def MAX_GOG_SOURCES_def slice_last_def Let_def f
      by (simp add: old)
  qed
qed

lemma prepare_catalog_titles:
  "map title (downloads (prepare_catalog H d su)) = map title (take 200 (downloads d))"
  by (simp add: prepare_catalog_def normalizeGogData_def MAX_DOWNLOADS_PER_SOURCE_def Let_def comp_def)

lemma rehydrate_catalog_shape:
  "name (rehydrate_catalog H d) = name d"
  "map title (downloads (rehydrate_catalog H d)) = map title (take 200 (downloads d))"
  by (simp_all add: rehydrate_catalog_def normalizeGogData_def MAX_DOWNLOADS_PER_SOURCE_def Let_def comp_def)

text \<open>
  Claim C9, as amended. After every run of data-store operations from the initial state
  (\<open>addGogData\<close>, the settling of an upload, \<open>removeSource\<close>, \<open>loadSavedSource\<close>)
  the catalog list holds at most 50 catalogs, their names are pairwise distinct, and every
  catalog holds at most 200 download records. In the state after such a run, an
  \<open>addGogData\<close> for a name whose upload is in progress changes nothing; any other
  \<open>addGogData\<close>, and every \<open>loadSavedSource\<close> that gets a catalog, replaces the catalog
  of the same name by the new one, which becomes the latest, or else adds it as the latest
  and, when there were 50 already, drops the oldest. The catalog that is stored
  has the name of the one given and its first 200 records.
\<close>

theorem store_invariant_holds:
  "store_invariant (store_run H ops)
   \<and> gogData (addGogData H now (store_run H ops) d su)
        = (if name d \<in> set (uploadInProgress (store_run H ops)) then gogData (store_run H ops)
           else spec_add (prepare_catalog H d su) (gogData (store_run H ops)))
   \<and> gogData (loadSavedSource H (store_run H ops) (Some d))
        = spec_add (rehydrate_catalog H d) (gogData (store_run H ops))
   \<and> (name d \<in> set (uploadInProgress (store_run H ops))
        \<longrightarrow> addGogData H now (store_run H ops) d su = store_run H ops)
   \<and> name (prepare_catalog H d su) = name d
   \<and> map title (downloads (prepare_catalog H d su)) = map title (take 200 (downloads d))
   \<and> name (rehydrate_catalog H d) = name d
   \<and> map title (downloads (rehydrate_catalog H d)) = map title (take 200 (downloads d))"
proof (intro conjI impI)
  have "store_invariant initial_state"
    by (simp add: store_invariant_def initial_state_def)
  then show inv: "store_invariant (store_run H ops)"
    unfolding store_run_def by (rule foldl_invariant)
  then have le: "length (gogData (store_run H ops)) \<le> 50" by (simp add: store_invariant_def)
  show "gogData (addGogData H now (store_run H ops) d su)
        = (if name d \<in> set (uploadInProgress (store_run H ops)) then gogData (store_run H ops)
           else spec_add (prepare_catalog H d su) (gogData (store_run H ops)))"
    by (simp add: addGogData_def Let_def merge_catalog_spec[OF le])
  show "gogData (loadSavedSource H (store_run H ops) (Some d))
        = spec_add (rehydrate_catalog H d) (gogData (store_run H ops))"
    by (simp add: loadSavedSource_def merge_catalog_spec[OF le])
next
  assume "name d \<in> set (uploadInProgress (store_run H ops))"
  then show "addGogData H now (store_run H ops) d su = store_run H ops" by (simp add: addGogData_def)
next
  show "name (prepare_catalog H d su) = name d" by (rule prepare_catalog_name)
  show "map title (downloads (prepare_catalog H d su)) = map title (take 200 (downloads d))"
    by (rule prepare_catalog_titles)
  show "name (rehydrate_catalog H d) = name d"
    and "map title (downloads (rehydrate_catalog H d)) = map title (take 200 (downloads d))"
    by (rule rehydrate_catalog_shape)+
qed

lemmas store_eval = store_run_def initial_state_def addGogData_def uploadSettled_def
  prepare_catalog_def normalizeGogData_def merge_catalog_def slice_last_def truthy_def
  MAX_GOG_SOURCES_def MAX_DOWNLOADS_PER_SOURCE_def Let_def

theorem store_invariant_holds_witness:
  "store_invariant (store_run ascii_host
      [AddGogData (u ''t1'') \<lparr>name = u ''A'', downloads = [raw_download 0 (u ''X-1'') (u ''1 KB'') (u ''d'')]\<rparr>
         (Some (u ''http://a''))])
   \<and> map (\<lambda>g. (name g, length (downloads g)))
        (gogData (addGogData ascii_host (u ''t2'')
           (store_run ascii_host
              [AddGogData (u ''t1'') \<lparr>name = u ''A'', downloads = [raw_download 0 (u ''X-1'') (u ''1 KB'') (u ''d'')]\<rparr>
                 (Some (u ''http://a''))])
           \<lparr>name = u ''A'', downloads = []\<rparr> (Some (u ''http://b''))))
     = [(u ''A'', 0)]"
proof -
  let ?ops = "[AddGogData (u ''t1'') \<lparr>name = u ''A'', downloads = [raw_download 0 (u ''X-1'') (u ''1 KB'') (u ''d'')]\<rparr>
         (Some (u ''http://a''))]"
  let ?st = "store_run ascii_host ?ops"
  let ?d = "\<lparr>name = u ''A'', downloads = []\<rparr>"
  note t = store_invariant_holds[of ascii_host ?ops "u ''t2''" ?d "Some (u ''http://b'')"]
  have inv: "store_invariant ?st" using t by (rule conjunct1)
  have free: "name ?d \<notin> set (uploadInProgress ?st)"
    by (simp add: store_eval u_Nil_iff u_eq_iff)
  have names: "map name (gogData ?st) = [u ''A'']"
    by (simp add: store_eval u_Nil_iff u_eq_iff)
  have dl0: "downloads (prepare_catalog ascii_host ?d (Some (u ''http://b''))) = []"
    by (simp add: prepare_catalog_def normalizeGogData_def Let_def)
  have g: "gogData (addGogData ascii_host (u ''t2'') ?st ?d (Some (u ''http://b'')))
      = spec_add (prepare_catalog ascii_host ?d (Some (u ''http://b''))) (gogData ?st)"
    using t free by presburger
  have r: "map (\<lambda>g. (name g, length (downloads g)))
        (gogData (addGogData ascii_host (u ''t2'') ?st ?d (Some (u ''http://b'')))) = [(u ''A'', 0)]"
    unfolding g using names by (auto simp: spec_add_def prepare_catalog_name dl0)
  show ?thesis using inv r by (rule conjI)
qed

text \<open>
  Claim C9 as stated fails while an upload is in progress. A catalog \<^verbatim>\<open>A\<close> with one
  record is added from a file, which starts its upload; before the upload settles, a
  catalog \<^verbatim>\<open>A\<close> without records is added from a file. The name exists, yet nothing is
  replaced: the state is the same, and the list still holds the catalog with one record.
\<close>

theorem store_pending_counterexample:
  "addGogData ascii_host (u ''t2'')
      (store_run ascii_host
         [AddGogData (u ''t1'') \<lparr>name = u ''A'', downloads = [raw_download 0 (u ''X-1'') (u ''1 KB'') (u ''d'')]\<rparr> None])
      \<lparr>name = u ''A'', downloads = []\<rparr> None
     = store_run ascii_host
         [AddGogData (u ''t1'') \<lparr>name = u ''A'', downloads = [raw_download 0 (u ''X-1'') (u ''1 KB'') (u ''d'')]\<rparr> None]
   \<and> map (\<lambda>g. (name g, length (downloads g)))
        (gogData (store_run ascii_host
           [AddGogData (u ''t1'') \<lparr>name = u ''A'', downloads = [raw_download 0 (u ''X-1'') (u ''1 KB'') (u ''d'')]\<rparr> None,
            AddGogData (u ''t2'') \<lparr>name = u ''A'', downloads = []\<rparr> None]))
     = [(u ''A'', 1)]"
proof -
  let ?ops = "[AddGogData (u ''t1'') \<lparr>name = u ''A'', downloads = [raw_download 0 (u ''X-1'') (u ''1 KB'') (u ''d'')]\<rparr> None]"
  let ?st = "store_run ascii_host ?ops"
  have busy: "name \<lparr>name = u ''A'', downloads = []\<rparr> \<in> set (uploadInProgress ?st)"
    by (simp add: store_eval u_Nil_iff u_eq_iff)
  have a: "addGogData ascii_host (u ''t2'') ?st \<lparr>name = u ''A'', downloads = []\<rparr> None = ?st"
    using busy by (simp add: addGogData_def)
  have run: "store_run ascii_host (?ops @ [AddGogData (u ''t2'') \<lparr>name = u ''A'', downloads = []\<rparr> None])
      = addGogData ascii_host (u ''t2'') ?st \<lparr>name = u ''A'', downloads = []\<rparr> None"
    by (simp add: store_run_def)
  have b: "map (\<lambda>g. (name g, length (downloads g))) (gogData ?st) = [(u ''A'', 1)]"
    by (simp add: store_eval u_Nil_iff u_eq_iff)
  have c: "map (\<lambda>g. (name g, length (downloads g)))
        (gogData (store_run ascii_host (?ops @ [AddGogData (u ''t2'') \<lparr>name = u ''A'', downloads = []\<rparr> None])))
      = [(u ''A'', 1)]"
    unfolding run a by (rule b)
  show ?thesis using a c[unfolded append.simps] by (rule conjI)
qed

section \<open>Properties of the source loader\<close>

text \<open>
  Claim C8, as amended. Let a non-zero failure time \<open>t\<close> be recorded for a URL that is
  not marked processed and that the response cache does not hold. If fewer than 10 minutes
  (\<open>FAILED_URL_RETRY_MS\<close>) have passed since \<open>t\<close>, \<open>loadSingleSource\<close> makes no
  network call and calls neither callback. Once the window has elapsed, and provided
  neither the URL nor the name of the source is in the recently-removed set, the first
  thing it does is a network call for that URL.
\<close>

theorem loader_backoff:
  assumes failed: "map_of (failedUrlAt st) url = Some t" and nz: "t \<noteq> 0"
    and fresh: "url \<notin> set (processedUrlLoads st)"
    and miss: "fst (getCachedUrl now st url) = None"
  shows "(now - t < FAILED_URL_RETRY_MS \<longrightarrow>
            snd (loadSingleSource now later cb network st srcName url) = [])
    \<and> (now - t \<ge> FAILED_URL_RETRY_MS \<and> url \<notin> set (recentlyRemovedUrls st)
          \<and> srcName \<notin> set (recentlyRemovedUrls st) \<longrightarrow>
            hd (snd (loadSingleSource now later cb network st srcName url)) = Fetch url)"
proof -
  obtain st1 where g: "getCachedUrl now st url = (None, st1)"
    using miss by (cases "getCachedUrl now st url") auto
  have same: "failedUrlAt st1 = failedUrlAt st" "recentlyRemovedUrls st1 = recentlyRemovedUrls st"
    using g by (auto simp: getCachedUrl_def split: option.splits prod.splits if_splits)
  have rf: "recently_failed now st1 url \<longleftrightarrow> now - t < FAILED_URL_RETRY_MS"
    using failed nz by (simp add: recently_failed_def same)
  show ?thesis
    using fresh g rf same
    by (cases "network url") (auto simp: loadSingleSource_def Let_def)
qed


lemmas loader_eval = loadSingleSource_def getCachedUrl_def recently_failed_def record_failure_def
  cacheUrlData_def FAILED_URL_RETRY_MS_def CACHE_EXPIRY_def Let_def

theorem loader_backoff_witness:
  "snd (loadSingleSource 2000 2500 True (\<lambda>x. NotOk)
          \<lparr>processedUrlLoads = [], recentlyRemovedUrls = [], failedUrlAt = [(u ''h'', 1000)], urlCache = []\<rparr>
          (u ''S'') (u ''h'')) = []
   \<and> hd (snd (loadSingleSource 700000 700500 True (\<lambda>x. NotOk)
          \<lparr>processedUrlLoads = [], recentlyRemovedUrls = [], failedUrlAt = [(u ''h'', 1000)], urlCache = []\<rparr>
          (u ''S'') (u ''h''))) = Fetch (u ''h'')"
proof -
  let ?st = "\<lparr>processedUrlLoads = [], recentlyRemovedUrls = [], failedUrlAt = [(u ''h'', 1000)], urlCache = []\<rparr>"
  have failed: "map_of (failedUrlAt ?st) (u ''h'') = Some 1000" by simp
  have nz: "(1000::int) \<noteq> 0" by simp
  have fresh: "u ''h'' \<notin> set (processedUrlLoads ?st)" by simp
  have miss: "fst (getCachedUrl now ?st (u ''h'')) = None" for now
    by (simp add: getCachedUrl_def)
  have early: "(2000::int) - 1000 < FAILED_URL_RETRY_MS" by (simp add: FAILED_URL_RETRY_MS_def)
  have late: "(700000::int) - 1000 \<ge> FAILED_URL_RETRY_MS \<and> u ''h'' \<notin> set (recentlyRemovedUrls ?st)
      \<and> u ''S'' \<notin> set (recentlyRemovedUrls ?st)" by (simp add: FAILED_URL_RETRY_MS_def)
  from loader_backoff[OF failed nz fresh miss, of 2000 2500 True "\<lambda>x. NotOk" "u ''S''"] early
  have a: "snd (loadSingleSource 2000 2500 True (\<lambda>x. NotOk) ?st (u ''S'') (u ''h'')) = []" by blast
  from loader_backoff[OF failed nz fresh miss, of 700000 700500 True "\<lambda>x. NotOk" "u ''S''"] late
  have b: "hd (snd (loadSingleSource 700000 700500 True (\<lambda>x. NotOk) ?st (u ''S'') (u ''h''))) = Fetch (u ''h'')"
    by blast
  show ?thesis using a b by (rule conjI)
qed

text \<open>
  The claim as stated fails for a source whose name was marked as removed: the window has
  elapsed, the URL is neither processed nor cached, and still no fetch is attempted.
\<close>

theorem loader_retry_counterexample:
  "map_of (failedUrlAt \<lparr>processedUrlLoads = [], recentlyRemovedUrls = [u ''S''],
             failedUrlAt = [(u ''h'', 1000)], urlCache = []\<rparr>) (u ''h'') = Some 1000
   \<and> (700000::int) - 1000 \<ge> FAILED_URL_RETRY_MS
   \<and> u ''h'' \<notin> set (processedUrlLoads \<lparr>processedUrlLoads = [], recentlyRemovedUrls = [u ''S''],
             failedUrlAt = [(u ''h'', 1000)], urlCache = []\<rparr>)
   \<and> fst (getCachedUrl 700000 \<lparr>processedUrlLoads = [], recentlyRemovedUrls = [u ''S''],
             failedUrlAt = [(u ''h'', 1000)], urlCache = []\<rparr> (u ''h'')) = None
   \<and> snd (loadSingleSource 700000 700500 True (\<lambda>x. Valid \<lparr>name = u ''S'', downloads = []\<rparr>)
          \<lparr>processedUrlLoads = [], recentlyRemovedUrls = [u ''S''],
             failedUrlAt = [(u ''h'', 1000)], urlCache = []\<rparr> (u ''S'') (u ''h'')) = []"
  by (simp add: loader_eval u_eq_iff)

section \<open>Properties of the search engine\<close>

lemma startsWith_iff: "startsWith s t \<longleftrightarrow> (\<exists>r. s = t @ r)"
  by (induction s t rule: startsWith.induct) auto

lemma includes_str_iff: "includes_str s t \<longleftrightarrow> (\<exists>a b. s = a @ t @ b)"
proof (induction s)
  case Nil
  then show ?case by auto
next
  case (Cons c cs)
  show ?case
  proof
    assume "includes_str (c # cs) t"
    then consider "startsWith (c # cs) t" | "includes_str cs t" by auto
    then show "\<exists>a b. c # cs = a @ t @ b"
    proof cases
      case 1
      then obtain r where "c # cs = t @ r" using startsWith_iff by blast
      then have "c # cs = [] @ t @ r" by simp
      then show ?thesis by blast
    next
      case 2
      then obtain a b where "cs = a @ t @ b" using Cons.IH by blast
      then have "c # cs = (c # a) @ t @ b" by simp
      then show ?thesis by blast
    qed
  next
    assume "\<exists>a b. c # cs = a @ t @ b"
    then obtain a b where ab: "c # cs = a @ t @ b" by blast
    show "includes_str (c # cs) t"
    proof (cases a)
      case Nil
      then have "startsWith (c # cs) t" using ab startsWith_iff by auto
      then show ?thesis by simp
    next
      case (Cons x a')
      then have "cs = a' @ t @ b" using ab by simp
      then have "includes_str cs t" using Cons.IH by blast
      then show ?thesis by simp
    qed
  qed
qed

lemma includesD: "includes_str s t \<Longrightarrow> \<exists>a b. s = a @ t @ b"
  by (simp add: includes_str_iff)

lemma includesI: "s = a @ t @ b \<Longrightarrow> includes_str s t"
  unfolding includes_str_iff by (intro exI)

lemma includes_trans: "includes_str s w \<Longrightarrow> includes_str w t \<Longrightarrow> includes_str s t"
proof -
  assume sw: "includes_str s w" and wt: "includes_str w t"
  obtain a b where s: "s = a @ w @ b" using includesD[OF sw] by (elim exE)
  obtain c d where w: "w = c @ t @ d" using includesD[OF wt] by (elim exE)
  have "s = (a @ c) @ t @ (d @ b)" unfolding s w by simp
  then show ?thesis by (rule includesI)
qed

lemma startsWith_includes: "startsWith w t \<Longrightarrow> includes_str w t"
proof -
  assume "startsWith w t"
  then obtain r where "w = t @ r" unfolding startsWith_iff by (elim exE)
  then have "w = [] @ t @ r" by simp
  then show ?thesis by (rule includesI)
qed

lemma split_by_includes: "w \<in> set (split_by P s) \<Longrightarrow> includes_str s w"
proof (induction P s rule: split_by.induct)
  case (1 P)
  then show ?case by simp
next
  case (2 P c cs)
  show ?case
  proof (cases "P c")
    case True
    with 2 have "includes_str (dropWhile P cs) w" by simp
    then obtain a b where d: "dropWhile P cs = a @ w @ b" by (auto dest: includesD)
    have "c # cs = c # takeWhile P cs @ dropWhile P cs" by simp
    then have "c # cs = (c # takeWhile P cs @ a) @ w @ b" unfolding d by simp
    then show ?thesis by (rule includesI)
  next
    case False
    let ?Q = "\<lambda>x. \<not> P x"
    from 2(3) False consider "w = takeWhile ?Q (c # cs)" | "w \<in> set (split_by P (dropWhile ?Q cs))"
      by auto
    then show ?thesis
    proof cases
      case 1
      have "c # cs = [] @ takeWhile ?Q (c # cs) @ dropWhile ?Q (c # cs)" by simp
      then show ?thesis unfolding 1 by (rule includesI)
    next
      case 2
      with "2.IH"(2)[OF False] have "includes_str (dropWhile ?Q cs) w" by simp
      then obtain a b where d: "dropWhile ?Q cs = a @ w @ b" by (auto dest: includesD)
      have "c # cs = c # takeWhile ?Q cs @ dropWhile ?Q cs" by simp
      then have "c # cs = (c # takeWhile ?Q cs @ a) @ w @ b" unfolding d by simp
      then show ?thesis by (rule includesI)
    qed
  qed
qed

lemma compute_search_text_words:
  "w \<in> set (snd (compute_search_text H item)) \<Longrightarrow> includes_str (fst (compute_search_text H item)) w"
proof -
  assume a: "w \<in> set (snd (compute_search_text H item))"
  obtain combined where st: "fst (compute_search_text H item) = [32] @ combined @ [32]"
    and ws: "snd (compute_search_text H item) = (if combined = [] then [] else split_by (\<lambda>c. c = 32) combined)"
    by (simp add: compute_search_text_def Let_def)
  from a ws have "w \<in> set (split_by (\<lambda>c. c = 32) combined)" by (auto split: if_splits)
  then have "includes_str combined w" by (rule split_by_includes)
  moreover have "includes_str ([32] @ combined @ [32]) combined" by (rule includesI[OF refl])
  ultimately show ?thesis unfolding st by (rule includes_trans[rotated])
qed

lemma ratio_gt:
  assumes "0 < b"
  shows "((of_nat a :: rat) / of_nat b > of_nat k / 10) = (100 * a > (10 * k) * b)"
proof -
  have "((of_nat a :: rat) / of_nat b > of_nat k / 10) = ((of_nat (k * b) :: rat) < of_nat (10 * a))"
    using assms by (simp add: field_simps)
  also have "\<dots> = (k * b < 10 * a)" by (simp only: of_nat_less_iff)
  also have "\<dots> = (100 * a > (10 * k) * b)" by (auto simp: mult.commute)
  finally show ?thesis .
qed

lemma ratio_60: "0 < b \<Longrightarrow> ((of_nat a :: rat) / of_nat b > 6 / 10) = (100 * a > 60 * b)"
  using ratio_gt[where k=6 and a=a and b=b] by simp

lemma ratio_40: "0 < b \<Longrightarrow> ((of_nat a :: rat) / of_nat b > 4 / 10) = (100 * a > 40 * b)"
  using ratio_gt[where k=4 and a=a and b=b] by simp

lemma find_SomeD: "find P xs = Some x \<Longrightarrow> x \<in> set xs \<and> P x"
  by (induction xs) (auto split: if_splits)

lemma match_term_eq:
  "match_term H s t =
     (if length t \<le> length s \<and> map (canonicalize H) (take (length t) s) = map (canonicalize H) t
      then Some (if t = [] then None else Some (s ! (length t - 1)), drop (length t) s)
      else None)"
proof (induction H s t rule: match_term.induct)
  case (1 H s)
  then show ?case by simp
next
  case (2 H p ps)
  then show ?case by simp
next
  case (3 H c cs p ps)
  show ?case
  proof (cases "canonicalize H c = canonicalize H p")
    case False
    then show ?thesis by simp
  next
    case True
    show ?thesis
    proof (cases "length ps \<le> length cs \<and> map (canonicalize H) (take (length ps) cs) = map (canonicalize H) ps")
      case False
      then show ?thesis using True 3 by auto
    next
      case ok: True
      have "(if ps = [] then Some c else Some (cs ! (length ps - 1))) = Some ((c # cs) ! length ps)"
        by (cases ps) simp_all
      then show ?thesis using True ok 3 by simp
    qed
  qed
qed

lemma char_at_append_here: "char_at (pre @ s) (length pre) = head_opt s"
  by (cases s) (simp_all add: char_at_def)

lemma char_at_append_last:
  "pre \<noteq> [] \<Longrightarrow> char_at (pre @ s) (length pre - Suc 0) = Some (last pre)"
  by (cases pre rule: rev_cases) (simp_all add: char_at_def nth_append)

lemma match_here_position:
  assumes prev: "prev = (if pre = [] then None else Some (last pre))"
  shows "match_here H prev s t
     \<longleftrightarrow> occurs_at H t (pre @ s) (length pre) \<and> word_boundary_at (pre @ s) (length pre)
         \<and> word_boundary_at (pre @ s) (length pre + length t)"
proof (cases "length t \<le> length s \<and> map (canonicalize H) (take (length t) s) = map (canonicalize H) t")
  case False
  then show ?thesis by (auto simp: match_here_def match_term_eq occurs_at_def)
next
  case fits: True
  note True = fits
  have occ: "occurs_at H t (pre @ s) (length pre)" using True by (simp add: occurs_at_def)
  have b1: "boundary prev (head_opt s) = word_boundary_at (pre @ s) (length pre)"
    unfolding boundary_def word_boundary_at_def char_at_append_here prev
    by (cases "pre = []") (simp_all add: char_at_append_last)
  have right: "char_at (pre @ s) (length pre + length t) = head_opt (drop (length t) s)"
    using char_at_append_here[of "pre @ take (length t) s" "drop (length t) s"] True by simp
  have b2: "boundary (if t = [] then prev else Some (s ! (length t - 1))) (head_opt (drop (length t) s))
      = word_boundary_at (pre @ s) (length pre + length t)"
  proof (cases "t = []")
    case True
    then show ?thesis using b1 by simp
  next
    case False
    then obtain k where k: "length t = Suc k" by (cases t) auto
    then have "k < length s" using fits by simp
    then have "char_at (pre @ s) (length pre + k) = Some (s ! k)"
      by (simp add: char_at_def nth_append)
    moreover have "char_at (pre @ s) (Suc (length pre + k)) = head_opt (drop (Suc k) s)"
      using right k by simp
    ultimately show ?thesis using False
      unfolding boundary_def word_boundary_at_def k by simp
  qed
  show ?thesis
  proof (cases "t = []")
    case True
    then show ?thesis using fits occ b1 by (simp add: match_here_def match_term_eq)
  next
    case False
    have "boundary (Some (s ! (length t - Suc 0))) (head_opt (drop (length t) s))
        = word_boundary_at (pre @ s) (length pre + length t)"
      using b2 False by simp
    then show ?thesis using False fits occ b1 by (simp add: match_here_def match_term_eq)
  qed
qed

lemma word_match_from_positions:
  "prev = (if pre = [] then None else Some (last pre)) \<Longrightarrow>
   word_match_from H prev s t
     \<longleftrightarrow> (\<exists>i. length pre \<le> i \<and> i \<le> length (pre @ s) \<and> occurs_at H t (pre @ s) i
              \<and> word_boundary_at (pre @ s) i \<and> word_boundary_at (pre @ s) (i + length t))"
proof (induction s arbitrary: pre prev)
  case Nil
  have "(\<exists>i. length pre \<le> i \<and> i \<le> length (pre @ []) \<and> occurs_at H t (pre @ []) i
              \<and> word_boundary_at (pre @ []) i \<and> word_boundary_at (pre @ []) (i + length t))
      \<longleftrightarrow> (occurs_at H t (pre @ []) (length pre) \<and> word_boundary_at (pre @ []) (length pre)
              \<and> word_boundary_at (pre @ []) (length pre + length t))"
    by (auto simp: le_antisym)
  then show ?case using match_here_position[OF Nil, of H "[]" t] by simp
next
  case (Cons c cs)
  have here: "match_here H prev (c # cs) t
     \<longleftrightarrow> occurs_at H t (pre @ c # cs) (length pre) \<and> word_boundary_at (pre @ c # cs) (length pre)
         \<and> word_boundary_at (pre @ c # cs) (length pre + length t)"
    using Cons.prems by (rule match_here_position)
  have later: "word_match_from H (Some c) cs t
     \<longleftrightarrow> (\<exists>i. Suc (length pre) \<le> i \<and> i \<le> length (pre @ c # cs) \<and> occurs_at H t (pre @ c # cs) i
              \<and> word_boundary_at (pre @ c # cs) i \<and> word_boundary_at (pre @ c # cs) (i + length t))"
    using Cons.IH[of "Some c" "pre @ [c]"] by simp
  have split: "(\<exists>i. length pre \<le> i \<and> Q i) \<longleftrightarrow> Q (length pre) \<or> (\<exists>i. Suc (length pre) \<le> i \<and> Q i)" for Q
    by (metis Suc_leI le_neq_implies_less order_refl Suc_leD)
  show ?case
    unfolding word_match_from.simps here later
    by (subst split) auto
qed

text \<open>The pattern of the code matches exactly where the term is a whole word.\<close>

lemma word_boundary_test_whole_word: "word_boundary_test H t s = whole_word H t s"
proof -
  have A: "word_match_from H None s t
     \<longleftrightarrow> (\<exists>i. i \<le> length s \<and> occurs_at H t s i
              \<and> word_boundary_at s i \<and> word_boundary_at s (i + length t))"
    using word_match_from_positions[of None "[]" H s t] by simp
  have B: "(\<exists>i \<in> set [0..<Suc (length s)]. Q i) \<longleftrightarrow> (\<exists>i. i \<le> length s \<and> Q i)" for Q
    unfolding set_upt by (metis atLeastLessThan_iff le0 less_Suc_eq_le)
  show ?thesis
    unfolding word_boundary_test_def whole_word_def list_ex_iff A B by (rule refl)
qed

lemma score_tiers_general:
  assumes ws: "\<forall>w \<in> set ws. includes_str searchText w"
  shows "scoreForTerm H searchText ws t = tier_score H searchText ws t"
proof (cases "length t < 3")
  case True
  then show ?thesis by (simp add: scoreForTerm_def tier_score_def word_boundary_test_whole_word)
next
  case long: False
  have fc: "find (\<lambda>w. includes_str w t \<and> w \<noteq> t) ws = find (\<lambda>w. w \<noteq> t \<and> includes_str w t) ws"
    by (rule arg_cong[where f="\<lambda>P. find P ws"]) auto
  have tiers: "(case find (\<lambda>w. w \<noteq> t \<and> includes_str w t) ws of
            Some substringWord \<Rightarrow>
              (let ratio = (of_nat (length t) :: rat) / of_nat (length substringWord)
               in if ratio > 6 / 10 then 60 else if ratio > 4 / 10 then 45 else (25::int))
          | None \<Rightarrow> d)
      = (case find (\<lambda>w. w \<noteq> t \<and> includes_str w t) ws of
            Some w \<Rightarrow> if 100 * length t > 60 * length w then 60
                       else if 100 * length t > 40 * length w then 45 else 25
          | None \<Rightarrow> d)" for d
  proof (cases "find (\<lambda>w. w \<noteq> t \<and> includes_str w t) ws")
    case None
    then show ?thesis by simp
  next
    case (Some w)
    then have "includes_str w t" by (auto dest: find_SomeD)
    then obtain a b where "w = a @ t @ b" by (auto dest: includesD)
    then have pos: "0 < length w" using long by auto
    show ?thesis
      unfolding Some option.case Let_def ratio_60[OF pos] ratio_40[OF pos] by (rule refl)
  qed
  show ?thesis
  proof (cases "includes_str searchText t")
    case True
    then show ?thesis
      using long by (simp add: scoreForTerm_def tier_score_def fc tiers word_boundary_test_whole_word)
  next
    case False
    have np: "\<not> list_ex (\<lambda>w. startsWith w t) ws"
    proof
      assume "list_ex (\<lambda>w. startsWith w t) ws"
      then obtain w where w: "w \<in> set ws" "startsWith w t" unfolding list_ex_iff by blast
      then have "includes_str searchText w" "includes_str w t"
        using ws startsWith_includes by auto
      then show False using False includes_trans by blast
    qed
    have nf: "find (\<lambda>w. w \<noteq> t \<and> includes_str w t) ws = None"
    proof (cases "find (\<lambda>w. w \<noteq> t \<and> includes_str w t) ws")
      case None then show ?thesis .
    next
      case (Some w)
      then have "w \<in> set ws" "includes_str w t" by (auto dest: find_SomeD)
      then have "includes_str searchText t" using ws includes_trans by blast
      then show ?thesis using False by simp
    qed
    show ?thesis using long False np nf by (simp add: scoreForTerm_def tier_score_def)
  qed
qed

text \<open>
  Where the tiers of the code and those of the specification part: the code agrees with
  the specification on every term whose whole-word match, if any, comes with an occurrence
  of the term as it is written, unless the term is exactly 40% of a word.
\<close>

lemma tiers_agree_with_spec:
  assumes "whole_word H t searchText \<longrightarrow> includes_str searchText t"
    and "\<forall>w \<in> set ws. 100 * length t \<noteq> 40 * length w"
  shows "tier_score H searchText ws t = spec_score H searchText ws t"
proof (cases "find (\<lambda>w. w \<noteq> t \<and> includes_str w t) ws")
  case None
  then show ?thesis using assms(1) by (auto simp: tier_score_def spec_score_def)
next
  case (Some w)
  then have "w \<in> set ws" by (auto dest: find_SomeD)
  then have "100 * length t \<noteq> 40 * length w" using assms(2) by blast
  then have "(100 * length t > 40 * length w) = (100 * length t \<ge> 40 * length w)" by linarith
  then show ?thesis using assms(1) Some by (auto simp: tier_score_def spec_score_def)
qed

text \<open>
  Claim C1, as amended. For every record and every term, \<open>scoreForTerm\<close> on the search
  text and the words computed for the record returns these tiers: below three characters,
  40 on a whole-word match and 0 otherwise; from three characters on, 100 on a whole-word
  match of a term that the text contains as it is written, else 75 when a word starts
  with the term, else 60, 45 or 25 by the share of the term in the first other word that
  contains it (above 60%, above 40%, or 40% and less), else 15 when the term occurs in
  the text, else 0. A whole-word match is an occurrence of the term, up to the case folding of
  patterns, between two word boundaries, the word characters being the ASCII letters,
  digits and the underscore. The term is one without regular-expression operators.
\<close>

theorem scoreForTerm_tiers:
  assumes "regex_literal t"
  shows "scoreForTerm H (fst (compute_search_text H item)) (snd (compute_search_text H item)) t
       = tier_score H (fst (compute_search_text H item)) (snd (compute_search_text H item)) t"
  by (rule score_tiers_general) (simp add: compute_search_text_words)

lemmas tier_eval = scoreForTerm_def word_boundary_test_def match_here_def
  boundary_def is_word_def js_word_def js_digit_def ascii_host_def ascii_upper_def u_def

lemma skyrim_text:
  "compute_search_text ascii_host (raw_download 0 (u ''Skyrim 2'') [] [])
     = (u '' skyrim 2 '', [u ''skyrim'', u ''2''])"
  by (simp add: compute_search_text_def or_else_def raw_download_def norm_eval)

lemma skyrim_scores:
  "scoreForTerm ascii_host (u '' skyrim 2 '') [u ''skyrim'', u ''2''] (u ''sky'') = 75"
  "scoreForTerm ascii_host (u '' skyrim 2 '') [u ''skyrim'', u ''2''] (u ''xyz'') = 0"
  by (simp_all add: tier_eval)

theorem scoreForTerm_tiers_witness:
  "scoreForTerm ascii_host (fst (compute_search_text ascii_host (raw_download 0 (u ''Skyrim 2'') [] [])))
       (snd (compute_search_text ascii_host (raw_download 0 (u ''Skyrim 2'') [] []))) (u ''sky'') = 75
   \<and> tier_score ascii_host (fst (compute_search_text ascii_host (raw_download 0 (u ''Skyrim 2'') [] [])))
       (snd (compute_search_text ascii_host (raw_download 0 (u ''Skyrim 2'') [] []))) (u ''sky'') = 75"
proof -
  have lit: "regex_literal (u ''sky'')"
    by (simp add: regex_literal_def regex_operators_def u_def)
  show ?thesis using scoreForTerm_tiers[OF lit, of ascii_host "raw_download 0 (u ''Skyrim 2'') [] []"]
    unfolding skyrim_text by (simp add: skyrim_scores)
qed

text \<open>
  Claim C1 as stated fails in two places. A term of four characters inside a word of ten
  is exactly 40% of it: the specification puts it between 40% and 60%, at 45, and the
  code gives 25. And where the case folding of the pattern identifies two letters, a
  term can match as a whole word in a text that does not contain it as it is written:
  the specification gives 100, and the code, which looks for the term in the text first,
  gives 0. The second record has the title \<^verbatim>\<open>ab\<close>, Greek mu, \<^verbatim>\<open>c\<close>, and the term
  is \<^verbatim>\<open>ab\<close> followed by the micro sign, a term that normalisation leaves as it is.
\<close>

theorem scoreForTerm_tiers_counterexample:
  "scoreForTerm ascii_host (fst (compute_search_text ascii_host (raw_download 0 (u ''abcdefghij'') [] [])))
       (snd (compute_search_text ascii_host (raw_download 0 (u ''abcdefghij'') [] []))) (u ''cdef'') = 25
   \<and> spec_score ascii_host (fst (compute_search_text ascii_host (raw_download 0 (u ''abcdefghij'') [] [])))
       (snd (compute_search_text ascii_host (raw_download 0 (u ''abcdefghij'') [] []))) (u ''cdef'') = 45
   \<and> regex_literal [97, 98, 181]
   \<and> normalizeText mu_host (Some [97, 98, 181]) = [97, 98, 181]
   \<and> scoreForTerm mu_host (fst (compute_search_text mu_host (raw_download 0 [97, 98, 956, 99] [] [])))
       (snd (compute_search_text mu_host (raw_download 0 [97, 98, 956, 99] [] []))) [97, 98, 181] = 0
   \<and> spec_score mu_host (fst (compute_search_text mu_host (raw_download 0 [97, 98, 956, 99] [] [])))
       (snd (compute_search_text mu_host (raw_download 0 [97, 98, 956, 99] [] []))) [97, 98, 181] = 100"
proof -
  have e1: "compute_search_text ascii_host (raw_download 0 (u ''abcdefghij'') [] [])
      = (u '' abcdefghij '', [u ''abcdefghij''])"
    by (simp add: compute_search_text_def or_else_def raw_download_def norm_eval)
  have e2: "compute_search_text mu_host (raw_download 0 [97, 98, 956, 99] [] [])
      = ([32, 97, 98, 956, 99, 32], [[97, 98, 956, 99]])"
    by (simp add: compute_search_text_def or_else_def raw_download_def mu_host_def norm_eval)
  have a: "scoreForTerm ascii_host (u '' abcdefghij '') [u ''abcdefghij''] (u ''cdef'') = 25"
    by (simp add: tier_eval)
  have b: "spec_score ascii_host (u '' abcdefghij '') [u ''abcdefghij''] (u ''cdef'') = 45"
    by (simp add: spec_score_def word_boundary_test_whole_word[symmetric] tier_eval)
  have c: "regex_literal [97, 98, 181]"
    by (simp add: regex_literal_def regex_operators_def)
  have d: "normalizeText mu_host (Some [97, 98, 181]) = [97, 98, 181]"
    by (simp add: mu_host_def norm_eval)
  have e: "scoreForTerm mu_host [32, 97, 98, 956, 99, 32] [[97, 98, 956, 99]] [97, 98, 181] = 0"
    by (simp add: mu_host_def tier_eval)
  have f: "spec_score mu_host [32, 97, 98, 956, 99, 32] [[97, 98, 956, 99]] [97, 98, 181] = 100"
    by (simp add: spec_score_def word_boundary_test_whole_word[symmetric] mu_host_def tier_eval)
  show ?thesis unfolding e1 e2 fst_conv snd_conv using a b c d e f by (intro conjI)
qed

text \<open>One record for each tier.\<close>

lemma score_tier_examples:
  "scoreForTerm ascii_host (u '' star wars gog '') [u ''star'', u ''wars'', u ''gog''] (u ''star'') = 100"
  "scoreForTerm ascii_host (u '' sea of stars '') [u ''sea'', u ''of'', u ''stars''] (u ''star'') = 75"
  "scoreForTerm ascii_host (u '' special '') [u ''special''] (u ''pecia'') = 60"
  "scoreForTerm ascii_host (u '' special '') [u ''special''] (u ''eci'') = 45"
  "scoreForTerm ascii_host (u '' specially '') [u ''specially''] (u ''eci'') = 25"
  "scoreForTerm ascii_host (u '' elder scrollsx '') [u ''elder'', u ''scrollsx''] (u ''elder scrolls'') = 15"
  "scoreForTerm ascii_host (u '' sea of stars '') [u ''sea'', u ''of'', u ''stars''] (u ''of'') = 40"
  "scoreForTerm ascii_host (u '' sea of stars '') [u ''sea'', u ''of'', u ''stars''] (u ''st'') = 0"
  "scoreForTerm ascii_host (u '' sea of stars '') [u ''sea'', u ''of'', u ''stars''] (u ''moon'') = 0"
  by (simp_all add: tier_eval)

text \<open>
  Since the word characters of \<^verbatim>\<open>\b\<close> are ASCII, a term in another script never
  matches as a whole word: a Cyrillic term equal to a word of the record gets the score of
  a prefix, and one of two letters gets 0.
\<close>

lemma score_non_ascii_word:
  "scoreForTerm ascii_host [32, 1074, 1077, 1076, 1100, 32] [[1074, 1077, 1076, 1100]] [1074, 1077, 1076, 1100] = 75"
  "scoreForTerm ascii_host [32, 1085, 1091, 32] [[1085, 1091]] [1085, 1091] = 0"
  by (simp_all add: tier_eval)

section \<open>What the search keeps\<close>


































lemmas types_eval = expandSearchTermsWithSynonyms_types_def SYNONYMS_lookup_types_def
  SYNONYMS_MAP_types_def object_prototype_keys_def set_add_all_def set_add_def





text \<open>
  The expansion that the search engine uses throws on a term that names an inherited
  property of the table object, and \<open>filterResults\<close> with it.
\<close>

lemma expand_types_constructor_throws:
  "expandSearchTermsWithSynonyms_types ascii_host [u ''constructor''] = Inl TypeError"
  by (simp add: types_eval ascii_host_def ascii_lower_def u_def)

text \<open>
  The terms that reach the scoring are without regular-expression operators, as long as
  the host counts no operator as a letter or a number: the original terms are made of
  letters and numbers, and the synonyms of the table contain no operator.
\<close>

lemma includes_str_set: "includes_str s t \<Longrightarrow> set t \<subseteq> set s"
  by (auto dest: includesD)

lemma spec_terms_literal:
  assumes sane: "\<forall>c \<in> set regex_operators. \<not> isLetter H c \<and> \<not> isNumber H c"
    and t: "t \<in> set (spec_terms H q)"
  shows "regex_literal t"
proof -
  define r where "r = snd (extractExactPhrases q)"
  have "t \<in> set (split_by js_space (normalizeText H (Some r)))"
    using t unfolding spec_terms_def r_def Let_def split_ws_def by (auto split: if_splits)
  then have "includes_str (normalizeText H (Some r)) t" by (rule split_by_includes)
  then have inc: "set t \<subseteq> set (normalizeText H (Some r))" by (rule includes_str_set)
  have sp: "32 \<notin> set regex_operators" by (simp add: regex_operators_def)
  show ?thesis
    unfolding regex_literal_def
  proof
    fix c
    assume "c \<in> set t"
    then have cn: "c \<in> set (normalizeText H (Some r))" using inc by blast
    then have "r \<noteq> []" by (auto simp: normalizeText_def)
    from normalizeText_chars[OF this cn] have "c = 32 \<or> isLetter H c \<or> isNumber H c" by blast
    then show "c \<notin> set regex_operators" using sane sp by blast
  qed
qed

lemma synonyms_literal:
  "\<forall>syns \<in> snd ` set SYNONYMS_MAP_types. \<forall>s \<in> set syns. regex_literal s"
  by (simp add: SYNONYMS_MAP_types_def regex_literal_def regex_operators_def u_def)

lemma expand_loop_types_set:
  "expand_loop_types H ts acc = Inr ex
   \<Longrightarrow> set ex \<subseteq> set acc \<union> \<Union> (set ` snd ` set SYNONYMS_MAP_types)"
proof (induction ts arbitrary: acc)
  case Nil
  then show ?case by auto
next
  case (Cons t ts)
  show ?case
  proof (cases "SYNONYMS_lookup_types (toLowerCase H t)")
    case Absent
    then show ?thesis using Cons by simp
  next
    case Inherited
    then show ?thesis using Cons.prems by simp
  next
    case (Synonyms syns)
    then have "map_of SYNONYMS_MAP_types (toLowerCase H t) = Some syns"
      by (auto simp: SYNONYMS_lookup_types_def split: option.splits if_splits)
    then have "syns \<in> snd ` set SYNONYMS_MAP_types" by (force dest: map_of_SomeD)
    moreover have "set ex \<subseteq> set (set_add_all acc syns) \<union> \<Union> (set ` snd ` set SYNONYMS_MAP_types)"
      using Cons.IH[of "set_add_all acc syns"] Cons.prems Synonyms by simp
    ultimately show ?thesis by (auto simp: set_add_all_props)
  qed
qed

lemma expanded_terms_literal:
  assumes sane: "\<forall>c \<in> set regex_operators. \<not> isLetter H c \<and> \<not> isNumber H c"
    and exp: "expandSearchTermsWithSynonyms_types H (spec_terms H q) = Inr ex"
    and t: "t \<in> set ex"
  shows "regex_literal t"
proof -
  have "set ex \<subseteq> set (spec_terms H q) \<union> \<Union> (set ` snd ` set SYNONYMS_MAP_types)"
    using expand_loop_types_set[of H "spec_terms H q" "set_add_all [] (spec_terms H q)" ex] exp
    by (simp add: expandSearchTermsWithSynonyms_types_def set_add_all_props)
  then consider "t \<in> set (spec_terms H q)" | syns where "syns \<in> snd ` set SYNONYMS_MAP_types" "t \<in> set syns"
    using t by blast
  then show ?thesis
  proof cases
    case 1
    with sane show ?thesis by (rule spec_terms_literal)
  next
    case 2
    then show ?thesis using synonyms_literal by blast
  qed
qed

section \<open>The order of the results\<close>















end
